theory Spec2Isabelle
  imports Main "HOL-Library.AList"
begin

section \<open>JavaScript values, errors and loops\<close>

text \<open>
  The embedding follows \<^verbatim>\<open>src/lib/transformer.js\<close>. Every \<^verbatim>\<open>throw\<close> and
  every rejected promise of the source is a value of \<open>error\<close>; a function that can fail
  returns \<open>error + 'a\<close> with \<open>Inl\<close> for the failure.
\<close>

datatype error =
    TypeError string
  | Error string
  | SyntaxError string
  | SystemError string

text \<open>
  Values that reach the transformer untyped: the arguments of \<^verbatim>\<open>addSource\<close> and
  \<^verbatim>\<open>addModule\<close>, and what \<^verbatim>\<open>JSON.parse\<close> returns for a module descriptor.
  \<open>JUndefined\<close> is a missing argument or a missing property.
\<close>

datatype jsvalue =
    JUndefined
  | JNull
  | JBool bool
  | JNumber int
  | JString string
  | JArray "jsvalue list"
  | JObject "(string \<times> jsvalue) list"

text \<open>JavaScript truthiness, as \<^verbatim>\<open>!pkg.webidl2js\<close> tests it.\<close>

fun truthy :: "jsvalue \<Rightarrow> bool" where
  "truthy JUndefined = False"
| "truthy JNull = False"
| "truthy (JBool b) = b"
| "truthy (JNumber n) = (n \<noteq> 0)"
| "truthy (JString s) = (s \<noteq> [])"
| "truthy (JArray xs) = True"
| "truthy (JObject kvs) = True"

text \<open>
  Property access \<^verbatim>\<open>v.k\<close> for the three property names the source reads
  (\<^verbatim>\<open>webidl2js\<close>, \<^verbatim>\<open>interface\<close>, \<^verbatim>\<open>idl\<close>): it throws on \<^verbatim>\<open>undefined\<close> and
  \<^verbatim>\<open>null\<close>, reads an own property of an object, and is \<^verbatim>\<open>undefined\<close> on
  primitives and arrays, which have no property of these names.
\<close>

fun get_property :: "jsvalue \<Rightarrow> string \<Rightarrow> error + jsvalue" where
  "get_property JUndefined k = Inl (TypeError ''Cannot read property of undefined'')"
| "get_property JNull k = Inl (TypeError ''Cannot read property of null'')"
| "get_property (JObject kvs) k = Inr (case map_of kvs k of None \<Rightarrow> JUndefined | Some v \<Rightarrow> v)"
| "get_property v k = Inr JUndefined"

text \<open>
  \<^verbatim>\<open>for (const file of v)\<close>: an array yields its elements, a string its characters,
  anything else is not iterable.
\<close>

fun iterate :: "jsvalue \<Rightarrow> error + jsvalue list" where
  "iterate (JArray xs) = Inr xs"
| "iterate (JString s) = Inr (map (\<lambda>c. JString [c]) s)"
| "iterate v = Inl (TypeError ''value is not iterable'')"

text \<open>\<^verbatim>\<open>String.prototype.endsWith\<close>.\<close>

definition endsWith :: "string \<Rightarrow> string \<Rightarrow> bool" where
  "endsWith s suf \<longleftrightarrow> length suf \<le> length s \<and> drop (length s - length suf) s = suf"

text \<open>
  A \<^verbatim>\<open>for ... of\<close> loop whose body mutates a state and may throw: the body returns
  the new state, or the error together with the state it had reached when it threw,
  and an exception leaves the loop with that state.
\<close>

fun for_of :: "('s \<Rightarrow> 'a \<Rightarrow> (error \<times> 's) + 's) \<Rightarrow> 'a list \<Rightarrow> 's \<Rightarrow> (error \<times> 's) + 's" where
  "for_of body [] s = Inr s"
| "for_of body (x # xs) s =
     (case body s x of Inl failure \<Rightarrow> Inl failure | Inr s' \<Rightarrow> for_of body xs s')"

text \<open>An operation that fails without changing the state, inside such a loop.\<close>

definition throwing :: "'s \<Rightarrow> error + 's \<Rightarrow> (error \<times> 's) + 's" where
  "throwing s r = (case r of Inl e \<Rightarrow> Inl (e, s) | Inr s' \<Rightarrow> Inr s')"

text \<open>
  \<^verbatim>\<open>Promise.all\<close> over independent promises that only read: all results in
  the order of the promises, or an error when one is rejected (the first rejected one
  in that order stands for the first rejection in time).
\<close>

fun all_results :: "(error + 'a) list \<Rightarrow> error + 'a list" where
  "all_results [] = Inr []"
| "all_results (r # rs) =
     (case r of Inl e \<Rightarrow> Inl e
      | Inr x \<Rightarrow> (case all_results rs of Inl e \<Rightarrow> Inl e | Inr xs \<Rightarrow> Inr (x # xs)))"

section \<open>External collaborators\<close>

text \<open>
  An instruction record of the parser collaborator (\<^verbatim>\<open>webidl2\<close>). The transformer
  reads \<^verbatim>\<open>type\<close>, \<^verbatim>\<open>name\<close>, \<^verbatim>\<open>partial\<close>, \<^verbatim>\<open>members\<close>, \<^verbatim>\<open>extAttrs\<close>, \<^verbatim>\<open>target\<close> and
  \<^verbatim>\<open>implements\<close>; members and extended attributes are opaque to it and stand here as
  strings. A missing \<^verbatim>\<open>partial\<close> is \<open>False\<close>.
\<close>

record instruction =
  type :: string
  name :: string
  partial :: bool
  members :: "string list"
  extAttrs :: "string list"
  target :: string
  implements :: string

text \<open>
  The provenance both kinds of file entry carry: \<^verbatim>\<open>impl\<close> for a declared source,
  \<^verbatim>\<open>genPath\<close> for a module's file; \<open>None\<close> is \<^verbatim>\<open>undefined\<close>.
\<close>

record binding =
  impl :: "string option"
  genPath :: "string option"

text \<open>\<^verbatim>\<open>{ idlPath, impl }\<close> and \<^verbatim>\<open>{ idlPath, genPath }\<close>: a source declaration or a resolved file.\<close>

record file_entry = binding +
  idlPath :: string

text \<open>\<^verbatim>\<open>{ idlContent, impl, genPath }\<close>: what \<^verbatim>\<open>_readFiles\<close> returns.\<close>

record loaded_document = binding +
  idlContent :: string

text \<open>\<^verbatim>\<open>{ idl, impl, genPath }\<close>: a parsed document inside \<^verbatim>\<open>_parse\<close>.\<close>

record parsed_file = binding +
  idl :: "instruction list"

text \<open>
  The constructs of \<^verbatim>\<open>./constructs\<close>, as far as the transformer touches them:
  \<^verbatim>\<open>obj.name\<close>, \<^verbatim>\<open>obj.idl\<close> (with its \<^verbatim>\<open>members\<close> and \<^verbatim>\<open>extAttrs\<close>),
  \<^verbatim>\<open>obj.imported\<close>, \<^verbatim>\<open>obj.implDir\<close>, and the mixins recorded by
  \<^verbatim>\<open>obj.implements(...)\<close>.
\<close>

record construct =
  obj_name :: string
  obj_idl :: instruction
  imported :: bool
  path_hint :: "string option"

record interface_obj = construct +
  implDir :: "string option"
  mixins :: "string list"

record typedef_obj =
  typedef_name :: string
  typedef_idl :: instruction

text \<open>
  The registry of \<^verbatim>\<open>./context\<close>. A JavaScript \<^verbatim>\<open>Map\<close> iterates in insertion order
  and \<^verbatim>\<open>set\<close> on a present key keeps the key's position: an association list with
  \<open>AList.update\<close>.
\<close>

record Context =
  interfaces :: "(string \<times> interface_obj) list"
  dictionaries :: "(string \<times> construct) list"
  typedefs :: "(string \<times> typedef_obj) list"
  customTypes :: "(string \<times> string) list"
  implSuffix :: string

text \<open>
  What the transformer calls and this repository's \<^verbatim>\<open>src/\<close> does not hold: Node's
  \<^verbatim>\<open>path\<close> module, \<^verbatim>\<open>require.resolve\<close>, \<^verbatim>\<open>__dirname\<close>, \<^verbatim>\<open>JSON.parse\<close>, the parser
  \<^verbatim>\<open>webidl2\<close>, \<^verbatim>\<open>prettier\<close>, and of the constructs their \<^verbatim>\<open>toString\<close>, their
  \<^verbatim>\<open>imported\<close> flag and the suffix the context stores. They are parameters of the
  model.
\<close>

record externals =
  path_join :: "string \<Rightarrow> string \<Rightarrow> string"
  path_posix_join :: "string \<Rightarrow> string \<Rightarrow> string"
  path_resolve :: "string \<Rightarrow> string \<Rightarrow> string"
  path_dirname :: "string \<Rightarrow> string"
  path_relative :: "string \<Rightarrow> string \<Rightarrow> string"
  require_resolve :: "string \<Rightarrow> error + string"
  dirname :: string
  JSON_parse :: "string \<Rightarrow> error + jsvalue"
  webidl_parse :: "string \<Rightarrow> error + instruction list"
  prettier_format :: "string \<Rightarrow> error + string"
  interface_toString :: "Context \<Rightarrow> interface_obj \<Rightarrow> error + string"
  dictionary_toString :: "Context \<Rightarrow> construct \<Rightarrow> error + string"
  is_imported :: "instruction \<Rightarrow> string option \<Rightarrow> bool"
  context_implSuffix :: "string option \<Rightarrow> string"

section \<open>The file system\<close>

text \<open>
  Paths are the strings the program passes to \<^verbatim>\<open>pn/fs\<close>. A node is a file with its
  text or a directory with the names \<^verbatim>\<open>readdir\<close> lists. \<^verbatim>\<open>writeFile\<close> fails on a
  path that is a directory and creates or replaces the file otherwise (parent
  directories are not looked at). \<open>written\<close> logs every successful \<^verbatim>\<open>writeFile\<close>
  in order.
\<close>

datatype fnode = File string | Directory "string list"

record filesystem =
  nodes :: "string \<Rightarrow> fnode option"
  written :: "(string \<times> string) list"

definition fs_stat :: "filesystem \<Rightarrow> string \<Rightarrow> error + fnode" where
  "fs_stat fs p = (case nodes fs p of None \<Rightarrow> Inl (SystemError ''ENOENT'') | Some n \<Rightarrow> Inr n)"

fun isDirectory :: "fnode \<Rightarrow> bool" where
  "isDirectory (Directory names) = True"
| "isDirectory (File text) = False"

definition fs_readdir :: "filesystem \<Rightarrow> string \<Rightarrow> error + string list" where
  "fs_readdir fs p =
     (case nodes fs p of
        None \<Rightarrow> Inl (SystemError ''ENOENT'')
      | Some (File text) \<Rightarrow> Inl (SystemError ''ENOTDIR'')
      | Some (Directory names) \<Rightarrow> Inr names)"

definition fs_readFile :: "filesystem \<Rightarrow> string \<Rightarrow> error + string" where
  "fs_readFile fs p =
     (case nodes fs p of
        None \<Rightarrow> Inl (SystemError ''ENOENT'')
      | Some (Directory names) \<Rightarrow> Inl (SystemError ''EISDIR'')
      | Some (File text) \<Rightarrow> Inr text)"

definition fs_writeFile :: "filesystem \<Rightarrow> string \<Rightarrow> string \<Rightarrow> error + filesystem" where
  "fs_writeFile fs p text =
     (case nodes fs p of
        Some (Directory names) \<Rightarrow> Inl (SystemError ''EISDIR'')
      | _ \<Rightarrow> Inr (fs\<lparr>nodes := (nodes fs)(p \<mapsto> File text), written := written fs @ [(p, text)]\<rparr>))"

section \<open>The transformer\<close>

record options =
  suppressErrors :: bool
  utilPath :: "string option"

record Transformer =
  ctx :: Context
  opts :: options
  sources :: "file_entry list"
  modules :: "(string \<times> string) list"

text \<open>
  Modelled from the spec: \<^verbatim>\<open>Context.initialize\<close> of \<^verbatim>\<open>./context\<close>, which is not under
  \<^verbatim>\<open>src/\<close>. The Type Registry is created once per build invocation and starts empty:
  the four maps are emptied.
\<close>

definition initialize :: "Context \<Rightarrow> Context" where
  "initialize c = c\<lparr>interfaces := [], dictionaries := [], typedefs := [], customTypes := []\<rparr>"

text \<open>
  \<^verbatim>\<open>constructor(opts = {})\<close>: the context gets \<^verbatim>\<open>opts.implSuffix\<close>,
  \<^verbatim>\<open>suppressErrors\<close> defaults to \<^verbatim>\<open>false\<close>, there are no sources and no modules.
\<close>

definition new_Transformer :: "externals \<Rightarrow> string option \<Rightarrow> bool option \<Rightarrow> string option \<Rightarrow> Transformer" where
  "new_Transformer ext optImplSuffix optSuppressErrors optUtilPath =
     \<lparr>ctx = \<lparr>interfaces = [], dictionaries = [], typedefs = [], customTypes = [],
              implSuffix = context_implSuffix ext optImplSuffix\<rparr>,
      opts = \<lparr>suppressErrors = (case optSuppressErrors of None \<Rightarrow> False | Some b \<Rightarrow> b),
               utilPath = optUtilPath\<rparr>,
      sources = [],
      modules = []\<rparr>"

text \<open>\<^verbatim>\<open>addSource(idl, impl)\<close>, lines 28 to 37.\<close>

definition addSource :: "Transformer \<Rightarrow> jsvalue \<Rightarrow> jsvalue \<Rightarrow> error + Transformer" where
  "addSource t idlArg implArg =
     (case idlArg of
        JString i \<Rightarrow>
          (case implArg of
             JString d \<Rightarrow>
               Inr (t\<lparr>sources := sources t @ [\<lparr>impl = Some d, genPath = None, idlPath = i\<rparr>]\<rparr>)
           | _ \<Rightarrow> Inl (TypeError ''impl path has to be a string''))
      | _ \<Rightarrow> Inl (TypeError ''idl path has to be a string''))"

text \<open>
  \<^verbatim>\<open>addModule(moduleName, packageJSONPath = require.resolve(...))\<close>, lines 39 to 48. The
  default is computed when the second argument is \<^verbatim>\<open>undefined\<close>, before the body
  runs; \<^verbatim>\<open>path.posix.join\<close> throws on a module name that is not a string.
\<close>

definition addModule :: "externals \<Rightarrow> Transformer \<Rightarrow> jsvalue \<Rightarrow> jsvalue \<Rightarrow> error + Transformer" where
  "addModule ext t moduleName packageJSONPath =
     (case (case packageJSONPath of
              JUndefined \<Rightarrow>
                (case moduleName of
                   JString m \<Rightarrow>
                     (case require_resolve ext (path_posix_join ext m ''package.json'') of
                        Inl e \<Rightarrow> Inl e
                      | Inr p \<Rightarrow> Inr (JString p))
                 | _ \<Rightarrow> Inl (TypeError ''The path argument must be of type string''))
            | v \<Rightarrow> Inr v) of
        Inl e \<Rightarrow> Inl e
      | Inr pj \<Rightarrow>
          (case moduleName of
             JString m \<Rightarrow>
               (case pj of
                  JString p \<Rightarrow> Inr (t\<lparr>modules := AList.update m p (modules t)\<rparr>)
                | _ \<Rightarrow> Inl (TypeError ''package.json path has to be a string''))
           | _ \<Rightarrow> Inl (TypeError ''module name has to be a string'')))"

section \<open>Source collection\<close>

text \<open>
  The coroutine \<^verbatim>\<open>_collectSources\<close> starts for one source declaration, lines 54 to 74:
  \<^verbatim>\<open>stat\<close>, then for a directory one entry for every name \<^verbatim>\<open>readdir\<close> lists that
  ends in \<^verbatim>\<open>.idl\<close>, and for anything else one entry for the path itself.
\<close>

definition collect_source :: "externals \<Rightarrow> filesystem \<Rightarrow> file_entry \<Rightarrow> error + file_entry list" where
  "collect_source ext fs src =
     (case fs_stat fs (idlPath src) of
        Inl e \<Rightarrow> Inl e
      | Inr stat \<Rightarrow>
          if isDirectory stat then
            (case fs_readdir fs (idlPath src) of
               Inl e \<Rightarrow> Inl e
             | Inr folderContents \<Rightarrow>
                 Inr (map (\<lambda>file. \<lparr>impl = impl src, genPath = None,
                                     idlPath = path_join ext (idlPath src) file\<rparr>)
                          (filter (\<lambda>file. endsWith file ''.idl'') folderContents)))
          else Inr [\<lparr>impl = impl src, genPath = None, idlPath = idlPath src\<rparr>])"

text \<open>
  The coroutine for one module, lines 76 to 91. \<^verbatim>\<open>path.posix.join\<close> and
  \<^verbatim>\<open>path.resolve\<close> throw a \<^verbatim>\<open>TypeError\<close> on an argument that is not a string.
\<close>

definition module_entry :: "externals \<Rightarrow> string \<Rightarrow> string \<Rightarrow> jsvalue \<Rightarrow> error + file_entry" where
  "module_entry ext modPath gen file =
     (case file of
        JString f \<Rightarrow> Inr \<lparr>impl = None, genPath = Some gen, idlPath = path_resolve ext modPath f\<rparr>
      | _ \<Rightarrow> Inl (TypeError ''The path argument must be of type string''))"

definition collect_module :: "externals \<Rightarrow> filesystem \<Rightarrow> string \<times> string \<Rightarrow> error + file_entry list" where
  "collect_module ext fs m =
     (case m of (modName, packageJSON) \<Rightarrow>
        (case fs_readFile fs packageJSON of
           Inl e \<Rightarrow> Inl e
         | Inr text \<Rightarrow>
        (case JSON_parse ext text of
           Inl e \<Rightarrow> Inl e
         | Inr pkg \<Rightarrow>
        (case get_property pkg ''webidl2js'' of
           Inl e \<Rightarrow> Inl e
         | Inr section \<Rightarrow>
             if \<not> truthy section then Inr []
             else
               (case get_property section ''interface'' of
                  Inl e \<Rightarrow> Inl e
                | Inr (JString sub) \<Rightarrow>
                    (case get_property section ''idl'' of
                       Inl e \<Rightarrow> Inl e
                     | Inr idls \<Rightarrow>
                         (case iterate idls of
                            Inl e \<Rightarrow> Inl e
                          | Inr files \<Rightarrow>
                              all_results
                                (map (module_entry ext (path_dirname ext packageJSON)
                                        (path_posix_join ext modName sub)) files)))
                | Inr _ \<Rightarrow> Inl (TypeError ''The path argument must be of type string''))))))"

text \<open>
  \<^verbatim>\<open>_collectSources\<close>, lines 50 to 95. Every coroutine pushes its entries in one
  synchronous run, so \<^verbatim>\<open>files\<close> is the coroutines' blocks of entries in the order
  they complete; the model takes the order in which they were started (sources, then
  modules). A failing coroutine rejects \<^verbatim>\<open>Promise.all\<close> and nothing is returned.
\<close>

definition collectSources :: "externals \<Rightarrow> filesystem \<Rightarrow> Transformer \<Rightarrow> error + file_entry list" where
  "collectSources ext fs t =
     (case all_results (map (collect_source ext fs) (sources t) @
                        map (collect_module ext fs) (modules t)) of
        Inl e \<Rightarrow> Inl e
      | Inr blocks \<Rightarrow> Inr (concat blocks))"

section \<open>Document loading\<close>

text \<open>\<^verbatim>\<open>_readFiles(files)\<close>, lines 97 to 108.\<close>

definition readFiles :: "filesystem \<Rightarrow> file_entry list \<Rightarrow> error + loaded_document list" where
  "readFiles fs files =
     (case all_results (map (\<lambda>f. fs_readFile fs (idlPath f)) files) of
        Inl e \<Rightarrow> Inl e
      | Inr fileContents \<Rightarrow>
          Inr (map (\<lambda>i. \<lparr>impl = impl (files ! i), genPath = genPath (files ! i),
                          idlContent = fileContents ! i\<rparr>)
                   [0..<length files]))"

section \<open>The model builder\<close>

text \<open>\<^verbatim>\<open>a && f(a)\<close> for an optional string: \<^verbatim>\<open>undefined\<close> and the empty string are falsy.\<close>

definition js_and :: "string option \<Rightarrow> (string \<Rightarrow> string) \<Rightarrow> string option" where
  "js_and a f = (case a of None \<Rightarrow> None | Some s \<Rightarrow> if s = [] then Some [] else Some (f s))"

text \<open>
  Modelled from the spec: the constructor of \<^verbatim>\<open>./constructs/interface\<close>, not under
  \<^verbatim>\<open>src/\<close>. A Type Entry is the resolved declaration keyed by its declared name; an
  interface entry is bound to the document's implementation directory and output path
  hint, and starts with no mixin recorded. Whether it counts as imported is a parameter.
\<close>

definition new_Interface :: "externals \<Rightarrow> instruction \<Rightarrow> string option \<Rightarrow> string option \<Rightarrow> interface_obj" where
  "new_Interface ext instruction optImplDir optPath =
     \<lparr>obj_name = name instruction, obj_idl = instruction,
      imported = is_imported ext instruction optPath, path_hint = optPath,
      implDir = optImplDir, mixins = []\<rparr>"

text \<open>
  Modelled from the spec: the constructor of \<^verbatim>\<open>./constructs/dictionary\<close>, not under
  \<^verbatim>\<open>src/\<close>. A dictionary entry is keyed by its declared name and carries the output
  path hint and no implementation directory.
\<close>

definition new_Dictionary :: "externals \<Rightarrow> instruction \<Rightarrow> string option \<Rightarrow> construct" where
  "new_Dictionary ext instruction optPath =
     \<lparr>obj_name = name instruction, obj_idl = instruction,
      imported = is_imported ext instruction optPath, path_hint = optPath\<rparr>"

text \<open>
  Modelled from the spec: the constructor of \<^verbatim>\<open>./constructs/typedef\<close>, not under
  \<^verbatim>\<open>src/\<close>. A typedef entry is keyed by its declared name and has no implementation
  binding.
\<close>

definition new_Typedef :: "instruction \<Rightarrow> typedef_obj" where
  "new_Typedef instruction = \<lparr>typedef_name = name instruction, typedef_idl = instruction\<rparr>"

text \<open>
  Modelled from the spec: the method \<^verbatim>\<open>implements\<close> of \<^verbatim>\<open>./constructs/interface\<close>,
  not under \<^verbatim>\<open>src/\<close>. It records the mixin source on the target; the generator
  resolves it later.
\<close>

definition Interface_implements :: "interface_obj \<Rightarrow> string \<Rightarrow> interface_obj" where
  "Interface_implements obj source = obj\<lparr>mixins := mixins obj @ [source]\<rparr>"

text \<open>\<^verbatim>\<open>contents.map(content => ({ idl: webidl.parse(content.idlContent), ... }))\<close>, lines 111 to 115.\<close>

definition parse_content :: "externals \<Rightarrow> loaded_document \<Rightarrow> error + parsed_file" where
  "parse_content ext content =
     (case webidl_parse ext (idlContent content) of
        Inl e \<Rightarrow> Inl e
      | Inr is \<Rightarrow> Inr \<lparr>impl = impl content, genPath = genPath content, idl = is\<rparr>)"

definition parse_contents :: "externals \<Rightarrow> loaded_document list \<Rightarrow> error + parsed_file list" where
  "parse_contents ext contents = all_results (map (parse_content ext) contents)"

text \<open>The body of the first pass for one instruction, lines 122 to 157.\<close>

definition pass1_instruction ::
  "externals \<Rightarrow> options \<Rightarrow> string \<Rightarrow> parsed_file \<Rightarrow> Context \<Rightarrow> instruction \<Rightarrow> (error \<times> Context) + Context" where
  "pass1_instruction ext os outputDir file c instruction =
     (if type instruction = ''interface'' then
        (if partial instruction then Inr c
         else
           (let obj = new_Interface ext instruction
                        (js_and (impl file) (path_resolve ext outputDir))
                        (js_and (genPath file) (\<lambda>g. path_join ext g (name instruction @ ''.js'')))
            in Inr (c\<lparr>interfaces := AList.update (obj_name obj) obj (interfaces c),
                      customTypes := AList.update (obj_name obj) ''interface'' (customTypes c)\<rparr>)))
      else if type instruction = ''implements'' then Inr c
      else if type instruction = ''dictionary'' then
        (if partial instruction then Inr c
         else
           (let obj = new_Dictionary ext instruction
                        (js_and (genPath file) (\<lambda>g. path_join ext g (name instruction @ ''.js'')))
            in Inr (c\<lparr>dictionaries := AList.update (obj_name obj) obj (dictionaries c),
                      customTypes := AList.update (obj_name obj) ''dictionary'' (customTypes c)\<rparr>)))
      else if type instruction = ''typedef'' then
        (let obj = new_Typedef instruction
         in Inr (c\<lparr>typedefs := AList.update (typedef_name obj) obj (typedefs c)\<rparr>))
      else if \<not> suppressErrors os then
        Inl (Error (''Can'' @ [CHR 0x27] @ ''t convert type '' @ [CHR 0x27] @ type instruction @ [CHR 0x27]), c)
      else Inr c)"

text \<open>
  \<^verbatim>\<open>oldMembers.push(...instruction.members)\<close> and
  \<^verbatim>\<open>extAttrs.push(...instruction.extAttrs)\<close> on the \<^verbatim>\<open>idl\<close> of a registered construct.
\<close>

definition push_partial :: "instruction \<Rightarrow> instruction \<Rightarrow> instruction" where
  "push_partial full instruction =
     full\<lparr>members := members full @ members instruction,
          extAttrs := extAttrs full @ extAttrs instruction\<rparr>"

text \<open>
  The body of the second pass for one instruction, lines 164 to 198. \<^verbatim>\<open>Map.get\<close> of
  a missing name is \<^verbatim>\<open>undefined\<close>, and reading \<^verbatim>\<open>.idl\<close> or calling
  \<^verbatim>\<open>.implements\<close> on it throws a \<^verbatim>\<open>TypeError\<close>.
\<close>

definition pass2_instruction :: "options \<Rightarrow> Context \<Rightarrow> instruction \<Rightarrow> (error \<times> Context) + Context" where
  "pass2_instruction os c instruction =
     (if type instruction = ''interface'' then
        (if \<not> partial instruction then Inr c
         else if suppressErrors os \<and> map_of (interfaces c) (name instruction) = None then Inr c
         else
           (case map_of (interfaces c) (name instruction) of
              None \<Rightarrow> Inl (TypeError ''Cannot read property idl of undefined'', c)
            | Some obj \<Rightarrow>
                Inr (c\<lparr>interfaces :=
                         AList.update (name instruction)
                           (obj\<lparr>obj_idl := push_partial (obj_idl obj) instruction\<rparr>)
                           (interfaces c)\<rparr>)))
      else if type instruction = ''dictionary'' then
        (if \<not> partial instruction then Inr c
         else if suppressErrors os \<and> map_of (dictionaries c) (name instruction) = None then Inr c
         else
           (case map_of (dictionaries c) (name instruction) of
              None \<Rightarrow> Inl (TypeError ''Cannot read property idl of undefined'', c)
            | Some obj \<Rightarrow>
                Inr (c\<lparr>dictionaries :=
                         AList.update (name instruction)
                           (obj\<lparr>obj_idl := push_partial (obj_idl obj) instruction\<rparr>)
                           (dictionaries c)\<rparr>)))
      else if type instruction = ''implements'' then
        (if suppressErrors os \<and> map_of (interfaces c) (target instruction) = None then Inr c
         else
           (case map_of (interfaces c) (target instruction) of
              None \<Rightarrow> Inl (TypeError ''Cannot read property implements of undefined'', c)
            | Some obj \<Rightarrow>
                Inr (c\<lparr>interfaces :=
                         AList.update (target instruction)
                           (Interface_implements obj (implements instruction))
                           (interfaces c)\<rparr>)))
      else Inr c)"

text \<open>The two passes, each a loop over the files and, inside, over a file's instructions.\<close>

definition pass1 :: "externals \<Rightarrow> options \<Rightarrow> string \<Rightarrow> parsed_file list \<Rightarrow> Context \<Rightarrow> (error \<times> Context) + Context" where
  "pass1 ext os outputDir parsed c =
     for_of (\<lambda>c file. for_of (pass1_instruction ext os outputDir file) (idl file) c) parsed c"

definition pass2 :: "options \<Rightarrow> parsed_file list \<Rightarrow> Context \<Rightarrow> (error \<times> Context) + Context" where
  "pass2 os parsed c =
     for_of (\<lambda>c file. for_of (pass2_instruction os) (idl file) c) parsed c"

text \<open>
  \<^verbatim>\<open>_parse(outputDir, contents)\<close>, lines 110 to 201: every document is parsed before
  the registry is touched, then the first pass runs over all files, then the second.
\<close>

definition parse :: "externals \<Rightarrow> options \<Rightarrow> string \<Rightarrow> Context \<Rightarrow> loaded_document list \<Rightarrow> (error \<times> Context) + Context" where
  "parse ext os outputDir c contents =
     (case parse_contents ext contents of
        Inl e \<Rightarrow> Inl (e, c)
      | Inr parsed \<Rightarrow>
          (case pass1 ext os outputDir parsed c of
             Inl failure \<Rightarrow> Inl failure
           | Inr c1 \<Rightarrow> pass2 os parsed c1))"

section \<open>Emission\<close>

text \<open>\<^verbatim>\<open>.replace(/\\/g, "/")\<close>: every backslash becomes a slash.\<close>

definition fix_separators :: "string \<Rightarrow> string" where
  "fix_separators s = map (\<lambda>ch. if ch = CHR 0x5C then CHR ''/'' else ch) s"

text \<open>\<^verbatim>\<open>if (p[0] !== ".") { p = "./" + p; }\<close>\<close>

definition relative_looking :: "string \<Rightarrow> string" where
  "relative_looking p = (case p of [] \<Rightarrow> ''./'' | ch # rest \<Rightarrow> if ch = CHR ''.'' then p else ''./'' @ p)"

text \<open>The two template literals, lines 227 to 234 and 253 to 259.\<close>

definition NL :: string where
  "NL = [CHR 0x0A]"

definition DQ :: string where
  "DQ = [CHR 0x22]"

definition preamble :: "string \<Rightarrow> string \<Rightarrow> string" where
  "preamble relativeUtils source =
     NL @ ''        '' @ DQ @ ''use strict'' @ DQ @ '';'' @ NL @
     NL @ ''        const conversions = require('' @ DQ @ ''webidl-conversions'' @ DQ @ '');'' @
     NL @ ''        const utils = require('' @ DQ @ relativeUtils @ DQ @ '');'' @
     NL @ ''        '' @ source"

definition interface_source :: "string \<Rightarrow> string \<Rightarrow> string \<Rightarrow> string" where
  "interface_source relativeUtils source implFile =
     preamble relativeUtils source @
     NL @ ''        const Impl = require('' @ DQ @ implFile @ ''.js'' @ DQ @ '');'' @
     NL @ ''      ''"

definition dictionary_source :: "string \<Rightarrow> string \<Rightarrow> string" where
  "dictionary_source relativeUtils source = preamble relativeUtils source @ NL @ ''      ''"

text \<open>\<^verbatim>\<open>_prettify(source)\<close>, lines 267 to 271.\<close>

definition prettify :: "externals \<Rightarrow> string \<Rightarrow> error + string" where
  "prettify ext source = prettier_format ext source"

text \<open>
  The relative path to the utility module that a generated file imports, lines 222 to
  225 and 248 to 251.
\<close>

definition relativeUtils_of :: "externals \<Rightarrow> string \<Rightarrow> string \<Rightarrow> string" where
  "relativeUtils_of ext outputDir up =
     relative_looking (fix_separators (path_relative ext outputDir up))"

text \<open>
  The body of the loop over \<^verbatim>\<open>interfaces.values()\<close>, lines 210 to 238.
  \<^verbatim>\<open>path.relative\<close> throws on an \<^verbatim>\<open>implDir\<close> that is \<^verbatim>\<open>undefined\<close>.
\<close>

definition write_interface ::
  "externals \<Rightarrow> Context \<Rightarrow> string \<Rightarrow> string \<Rightarrow> filesystem \<Rightarrow> interface_obj \<Rightarrow> (error \<times> filesystem) + filesystem" where
  "write_interface ext c up outputDir fs obj =
     (if imported obj then Inr fs
      else
        (case interface_toString ext c obj of
           Inl e \<Rightarrow> Inl (e, fs)
         | Inr source \<Rightarrow>
        (case implDir obj of
           None \<Rightarrow> Inl (TypeError ''The path argument must be of type string'', fs)
         | Some d \<Rightarrow>
        (case prettify ext
                (interface_source (relativeUtils_of ext outputDir up) source
                   (relative_looking
                      (fix_separators (path_relative ext outputDir d) @ ''/'' @ obj_name obj @ implSuffix c))) of
           Inl e \<Rightarrow> Inl (e, fs)
         | Inr formatted \<Rightarrow>
             throwing fs (fs_writeFile fs (path_join ext outputDir (obj_name obj @ ''.js'')) formatted)))))"

text \<open>The body of the loop over \<^verbatim>\<open>dictionaries.values()\<close>, lines 242 to 263.\<close>

definition write_dictionary ::
  "externals \<Rightarrow> Context \<Rightarrow> string \<Rightarrow> string \<Rightarrow> filesystem \<Rightarrow> construct \<Rightarrow> (error \<times> filesystem) + filesystem" where
  "write_dictionary ext c up outputDir fs obj =
     (if imported obj then Inr fs
      else
        (case dictionary_toString ext c obj of
           Inl e \<Rightarrow> Inl (e, fs)
         | Inr source \<Rightarrow>
        (case prettify ext (dictionary_source (relativeUtils_of ext outputDir up) source) of
           Inl e \<Rightarrow> Inl (e, fs)
         | Inr formatted \<Rightarrow>
             throwing fs (fs_writeFile fs (path_join ext outputDir (obj_name obj @ ''.js'')) formatted))))"

text \<open>
  \<^verbatim>\<open>_writeFiles(outputDir)\<close>, lines 203 to 265. \<^verbatim>\<open>fs.writeFile\<close> throws a
  \<^verbatim>\<open>TypeError\<close> on a path that is \<^verbatim>\<open>undefined\<close>.
\<close>

definition writeFiles :: "externals \<Rightarrow> Transformer \<Rightarrow> string \<Rightarrow> filesystem \<Rightarrow> (error \<times> filesystem) + filesystem" where
  "writeFiles ext t outputDir fs =
     (case fs_readFile fs (path_resolve ext (dirname ext) ''output/utils.js'') of
        Inl e \<Rightarrow> Inl (e, fs)
      | Inr utilsText \<Rightarrow>
     (case utilPath (opts t) of
        None \<Rightarrow> Inl (TypeError ''The path argument must be of type string'', fs)
      | Some up \<Rightarrow>
     (case fs_writeFile fs up utilsText of
        Inl e \<Rightarrow> Inl (e, fs)
      | Inr fs1 \<Rightarrow>
     (case for_of (write_interface ext (ctx t) up outputDir) (map snd (interfaces (ctx t))) fs1 of
        Inl failure \<Rightarrow> Inl failure
      | Inr fs2 \<Rightarrow>
          for_of (write_dictionary ext (ctx t) up outputDir) (map snd (dictionaries (ctx t))) fs2))))"

section \<open>The build\<close>

text \<open>\<^verbatim>\<open>!this.options.utilPath\<close>: \<^verbatim>\<open>undefined\<close> and the empty string are falsy.\<close>

definition utilPath_unset :: "options \<Rightarrow> bool" where
  "utilPath_unset os \<longleftrightarrow> (case utilPath os of None \<Rightarrow> True | Some p \<Rightarrow> p = [])"

definition default_utilPath :: "externals \<Rightarrow> string \<Rightarrow> Transformer \<Rightarrow> Transformer" where
  "default_utilPath ext outputDir t =
     (if utilPath_unset (opts t)
      then t\<lparr>opts := (opts t)\<lparr>utilPath := Some (path_join ext outputDir ''utils.js'')\<rparr>\<rparr>
      else t)"

text \<open>
  \<^verbatim>\<open>generate(outputDir)\<close>, lines 273 to 285, run to the settlement of the promise it
  returns: the result, the transformer and the file system it leaves behind.
\<close>

definition generate ::
  "externals \<Rightarrow> Transformer \<Rightarrow> string \<Rightarrow> filesystem \<Rightarrow> (error + unit) \<times> Transformer \<times> filesystem" where
  "generate ext t outputDir fs =
     (let t1 = default_utilPath ext outputDir t;
          t2 = t1\<lparr>ctx := initialize (ctx t1)\<rparr>
      in case collectSources ext fs t2 of
           Inl e \<Rightarrow> (Inl e, t2, fs)
         | Inr srcs \<Rightarrow>
        (case readFiles fs srcs of
           Inl e \<Rightarrow> (Inl e, t2, fs)
         | Inr contents \<Rightarrow>
        (case parse ext (opts t2) outputDir (ctx t2) contents of
           Inl (e, c) \<Rightarrow> (Inl e, t2\<lparr>ctx := c\<rparr>, fs)
         | Inr c \<Rightarrow>
        (case writeFiles ext (t2\<lparr>ctx := c\<rparr>) outputDir fs of
           Inl (e, fs') \<Rightarrow> (Inl e, t2\<lparr>ctx := c\<rparr>, fs')
         | Inr fs' \<Rightarrow> (Inr (), t2\<lparr>ctx := c\<rparr>, fs')))))"

section \<open>Vocabulary of the claims\<close>

text \<open>
  The kinds of instruction the two passes tell apart, the names a \<^verbatim>\<open>Map\<close> of the
  registry holds, and the instructions of all documents in processing order.
\<close>

definition full_interface :: "instruction \<Rightarrow> bool" where
  "full_interface i \<longleftrightarrow> type i = ''interface'' \<and> \<not> partial i"

definition partial_interface :: "instruction \<Rightarrow> bool" where
  "partial_interface i \<longleftrightarrow> type i = ''interface'' \<and> partial i"

definition full_dictionary :: "instruction \<Rightarrow> bool" where
  "full_dictionary i \<longleftrightarrow> type i = ''dictionary'' \<and> \<not> partial i"

definition partial_dictionary :: "instruction \<Rightarrow> bool" where
  "partial_dictionary i \<longleftrightarrow> type i = ''dictionary'' \<and> partial i"

definition is_implements :: "instruction \<Rightarrow> bool" where
  "is_implements i \<longleftrightarrow> type i = ''implements''"

definition recognized :: "instruction \<Rightarrow> bool" where
  "recognized i \<longleftrightarrow>
     type i = ''interface'' \<or> type i = ''implements'' \<or> type i = ''dictionary'' \<or> type i = ''typedef''"

definition keys :: "(string \<times> 'v) list \<Rightarrow> string set" where
  "keys al = fst ` set al"

definition instructions :: "parsed_file list \<Rightarrow> instruction list" where
  "instructions parsed = concat (map idl parsed)"

text \<open>
  Every instruction paired with the file it stands in, in processing order, and the
  consistency of the index with the kind maps: an entry of \<^verbatim>\<open>customTypes\<close> names a
  kind whose map holds the name.
\<close>

definition pairs :: "parsed_file list \<Rightarrow> (parsed_file \<times> instruction) list" where
  "pairs parsed = concat (map (\<lambda>file. map (Pair file) (idl file)) parsed)"

definition index_consistent :: "Context \<Rightarrow> bool" where
  "index_consistent c \<longleftrightarrow>
     (\<forall>(n, k) \<in> set (customTypes c).
        (k = ''interface'' \<and> n \<in> keys (interfaces c)) \<or>
        (k = ''dictionary'' \<and> n \<in> keys (dictionaries c)))"

text \<open>
  The three model errors, for an instruction among the instructions \<open>every\<close> of all
  documents: an unrecognized kind, a partial interface or dictionary with no full
  definition of its name, an \<^verbatim>\<open>implements\<close> whose target has no full interface.
\<close>

definition unmatched_partial :: "instruction list \<Rightarrow> instruction \<Rightarrow> bool" where
  "unmatched_partial every i \<longleftrightarrow>
     (partial_interface i \<and> name i \<notin> name ` set (filter full_interface every)) \<or>
     (partial_dictionary i \<and> name i \<notin> name ` set (filter full_dictionary every))"

definition unknown_target :: "instruction list \<Rightarrow> instruction \<Rightarrow> bool" where
  "unknown_target every i \<longleftrightarrow>
     is_implements i \<and> target i \<notin> name ` set (filter full_interface every)"

definition model_error :: "instruction list \<Rightarrow> instruction \<Rightarrow> bool" where
  "model_error every i \<longleftrightarrow>
     unmatched_partial every i \<or> unknown_target every i \<or> \<not> recognized i"

text \<open>
  A generated file imports the utility module by the path from \<open>outputDir\<close> to \<open>up\<close>:
  its text is the formatter's output for a source that starts with the preamble for
  that relative path.
\<close>

definition imports_utils :: "externals \<Rightarrow> string \<Rightarrow> string \<Rightarrow> string \<Rightarrow> bool" where
  "imports_utils ext outputDir up content \<longleftrightarrow>
     (\<exists>source rest.
        prettify ext (preamble (relativeUtils_of ext outputDir up) source @ rest) = Inr content)"

text \<open>The path of the file emitted for a construct.\<close>

definition output_file :: "externals \<Rightarrow> string \<Rightarrow> string \<Rightarrow> string" where
  "output_file ext outputDir typeName = path_join ext outputDir (typeName @ ''.js'')"

section \<open>A small installation\<close>

text \<open>
  Concrete collaborators, documents and a file system on which the model is run: paths
  are joined with a slash, the parser and \<^verbatim>\<open>JSON.parse\<close> are tables from the text of
  a file to what the collaborator returns for it, the renderers return a fixed text,
  and a construct counts as imported when it has a path hint.
\<close>

definition interface_instruction :: "string \<Rightarrow> bool \<Rightarrow> string list \<Rightarrow> string list \<Rightarrow> instruction" where
  "interface_instruction n p ms xs =
     \<lparr>type = ''interface'', name = n, partial = p, members = ms, extAttrs = xs,
      target = [], implements = []\<rparr>"

definition dictionary_instruction :: "string \<Rightarrow> bool \<Rightarrow> string list \<Rightarrow> string list \<Rightarrow> instruction" where
  "dictionary_instruction n p ms xs =
     \<lparr>type = ''dictionary'', name = n, partial = p, members = ms, extAttrs = xs,
      target = [], implements = []\<rparr>"

definition implements_instruction :: "string \<Rightarrow> string \<Rightarrow> instruction" where
  "implements_instruction tgt src =
     \<lparr>type = ''implements'', name = [], partial = False, members = [], extAttrs = [],
      target = tgt, implements = src\<rparr>"

definition other_instruction :: "string \<Rightarrow> string \<Rightarrow> instruction" where
  "other_instruction ty n =
     \<lparr>type = ty, name = n, partial = False, members = [], extAttrs = [],
      target = [], implements = []\<rparr>"

definition demo_documents :: "(string \<times> instruction list) list" where
  "demo_documents =
     [(''A'', [interface_instruction ''Foo'' False [''x''] [''Exposed'']]),
      (''B'', [interface_instruction ''Foo'' True [''y''] [''Global''],
               interface_instruction ''Bar'' False [] [],
               implements_instruction ''Bar'' ''Foo'']),
      (''C'', [interface_instruction ''Foo'' False [''x''] [],
               dictionary_instruction ''Foo'' False [''d''] []]),
      (''E'', [other_instruction ''enum'' ''Color'']),
      (''P'', [interface_instruction ''Baz'' True [''z''] []]),
      (''M'', [interface_instruction ''Bar'' False [] [],
               implements_instruction ''Bar'' ''Missing'']),
      (''N'', [interface_instruction ''Node'' False [''nodeType''] []]),
      (''V'', [dictionary_instruction ''EventInit'' False [''bubbles''] []]),
      ([], [])]"

definition demo_descriptors :: "(string \<times> jsvalue) list" where
  "demo_descriptors =
     [(''plain'', JObject [(''name'', JString ''plain'')]),
      (''contributing'',
       JObject [(''name'', JString ''dom''),
                (''webidl2js'',
                 JObject [(''interface'', JString ''lib/generated''),
                          (''idl'', JArray [JString ''idl/Node.idl'', JString ''idl/Event.idl''])])])]"

definition demo_relative :: "string \<Rightarrow> string \<Rightarrow> string" where
  "demo_relative from to =
     (if take (Suc (length from)) to = from @ ''/'' then drop (Suc (length from)) to
      else ''../'' @ to)"

definition demo_ext :: externals where
  "demo_ext =
     \<lparr>path_join = (\<lambda>a b. a @ ''/'' @ b),
      path_posix_join = (\<lambda>a b. a @ ''/'' @ b),
      path_resolve = (\<lambda>a b. a @ ''/'' @ b),
      path_dirname = (\<lambda>p. rev (tl (dropWhile (\<lambda>ch. ch \<noteq> CHR ''/'') (rev p)))),
      path_relative = demo_relative,
      require_resolve = (\<lambda>p. Inr (''node_modules/'' @ p)),
      dirname = ''lib'',
      JSON_parse = (\<lambda>text. case map_of demo_descriptors text of
                              None \<Rightarrow> Inl (SyntaxError ''Unexpected token'')
                            | Some v \<Rightarrow> Inr v),
      webidl_parse = (\<lambda>text. case map_of demo_documents text of
                                None \<Rightarrow> Inl (SyntaxError ''Unexpected token'')
                              | Some is \<Rightarrow> Inr is),
      prettier_format = (\<lambda>source. Inr source),
      interface_toString = (\<lambda>c obj. Inr (''class '' @ obj_name obj)),
      dictionary_toString = (\<lambda>c obj. Inr (''dict '' @ obj_name obj)),
      is_imported = (\<lambda>instruction hint. hint \<noteq> None),
      context_implSuffix = (\<lambda>s. case s of None \<Rightarrow> [] | Some x \<Rightarrow> x)\<rparr>"

definition demo_nodes :: "(string \<times> fnode) list" where
  "demo_nodes =
     [(''idl'', Directory [''A.idl'', ''notes.txt'', ''B.idl'']),
      (''idl/A.idl'', File ''A''),
      (''idl/notes.txt'', File ''to do''),
      (''idl/B.idl'', File ''B''),
      (''mixed'', Directory [''A.idl'', ''sub.idl'', ''readme.md'']),
      (''mixed/A.idl'', File ''A''),
      (''mixed/sub.idl'', Directory [''B.idl'']),
      (''mixed/sub.idl/B.idl'', File ''B''),
      (''mixed/readme.md'', File ''read me''),
      (''single.webidl'', File ''C''),
      (''lib/output/utils.js'', File ''exports.utils = {};''),
      (''node_modules/plain/package.json'', File ''plain''),
      (''node_modules/dom/package.json'', File ''contributing''),
      (''node_modules/dom/idl/Node.idl'', File ''N''),
      (''node_modules/dom/idl/Event.idl'', File ''V'')]"

definition demo_fs :: filesystem where
  "demo_fs = \<lparr>nodes = map_of demo_nodes, written = []\<rparr>"

definition demo_transformer :: Transformer where
  "demo_transformer = new_Transformer demo_ext None None None"

text \<open>
  The two documents of a small build, \<^verbatim>\<open>A\<close> with the full interface \<^verbatim>\<open>Foo\<close> and
  \<^verbatim>\<open>B\<close> with a partial \<^verbatim>\<open>Foo\<close>, the interface \<^verbatim>\<open>Bar\<close> and \<^verbatim>\<open>Bar implements Foo\<close>,
  and the registry they resolve to.
\<close>

definition demo_options :: options where
  "demo_options = \<lparr>suppressErrors = False, utilPath = None\<rparr>"

definition relaxed_options :: options where
  "relaxed_options = \<lparr>suppressErrors = True, utilPath = None\<rparr>"

definition demo_document :: "string \<Rightarrow> loaded_document" where
  "demo_document content = \<lparr>impl = Some ''impl'', genPath = None, idlContent = content\<rparr>"

definition demo_file :: "string \<Rightarrow> parsed_file" where
  "demo_file content =
     \<lparr>impl = Some ''impl'', genPath = None,
      idl = (case map_of demo_documents content of None \<Rightarrow> [] | Some is \<Rightarrow> is)\<rparr>"

definition demo_interface :: "string \<Rightarrow> string list \<Rightarrow> string list \<Rightarrow> string list \<Rightarrow> interface_obj" where
  "demo_interface n ms xs mx =
     \<lparr>obj_name = n, obj_idl = interface_instruction n False ms xs, imported = False,
      path_hint = None, implDir = Some ''out/impl'', mixins = mx\<rparr>"

definition demo_registry :: Context where
  "demo_registry =
     \<lparr>interfaces = [(''Foo'', demo_interface ''Foo'' [''x'', ''y''] [''Exposed'', ''Global''] []),
                    (''Bar'', demo_interface ''Bar'' [] [] [''Foo''])],
      dictionaries = [], typedefs = [],
      customTypes = [(''Foo'', ''interface''), (''Bar'', ''interface'')],
      implSuffix = []\<rparr>"

text \<open>The registry that holds the interface \<^verbatim>\<open>Bar\<close> and nothing else.\<close>

definition bar_registry :: Context where
  "bar_registry =
     \<lparr>interfaces = [(''Bar'', demo_interface ''Bar'' [] [] [])],
      dictionaries = [], typedefs = [],
      customTypes = [(''Bar'', ''interface'')],
      implSuffix = []\<rparr>"

definition demo_source :: Transformer where
  "demo_source =
     demo_transformer
       \<lparr>sources := [\<lparr>impl = Some ''impl'', genPath = None, idlPath = ''idl''\<rparr>],
        modules := [(''dom'', ''node_modules/dom/package.json'')]\<rparr>"

definition demo_build :: "(error + unit) \<times> Transformer \<times> filesystem" where
  "demo_build = generate demo_ext demo_source ''out'' demo_fs"

definition demo_rebuild :: "(error + unit) \<times> Transformer \<times> filesystem" where
  "demo_rebuild = generate demo_ext (fst (snd demo_build)) ''other'' (snd (snd demo_build))"

section \<open>Helper lemmas on the loops\<close>

lemma all_results_map_Inr:
  "(\<And>x. x \<in> set xs \<Longrightarrow> f x = Inr (g x)) \<Longrightarrow> all_results (map f xs) = Inr (map g xs)"
  by (induction xs) auto

lemma all_results_Inl:
  "r \<in> set rs \<Longrightarrow> r = Inl e \<Longrightarrow> \<exists>e'. all_results rs = Inl e'"
  by (induction rs) (auto split: sum.splits)

lemma for_of_append:
  "for_of f (xs @ ys) s = (case for_of f xs s of Inl e \<Rightarrow> Inl e | Inr s' \<Rightarrow> for_of f ys s')"
  by (induction xs arbitrary: s) (auto split: sum.splits)

lemma for_of_map_Pair:
  "for_of (\<lambda>s (y, x). g y s x) (map (Pair y) xs) s = for_of (g y) xs s"
  by (induction xs arbitrary: s) (auto split: sum.splits)

lemma for_of_nested:
  "for_of (\<lambda>s y. for_of (g y) (h y) s) ys s
   = for_of (\<lambda>s (y, x). g y s x) (concat (map (\<lambda>y. map (Pair y) (h y)) ys)) s"
  by (induction ys arbitrary: s) (auto simp: for_of_append for_of_map_Pair split: sum.splits)

lemma for_of_nested_plain:
  "for_of (\<lambda>s y. for_of g (h y) s) ys s = for_of g (concat (map h ys)) s"
  by (induction ys arbitrary: s) (auto simp: for_of_append split: sum.splits)

lemma for_of_invariant:
  assumes "for_of f xs s = Inr s'" and "P s"
    and "\<And>s x s'. P s \<Longrightarrow> x \<in> set xs \<Longrightarrow> f s x = Inr s' \<Longrightarrow> P s'"
  shows "P s'"
  using assms
proof (induction xs arbitrary: s)
  case Nil
  then show ?case by simp
next
  case (Cons y ys)
  from Cons.prems(1) obtain s1 where s1: "f s y = Inr s1" and rest: "for_of f ys s1 = Inr s'"
    by (cases "f s y") simp_all
  have p1: "P s1"
    by (rule Cons.prems(3)[OF Cons.prems(2) _ s1]) simp
  show ?case
  proof (rule Cons.IH[OF rest p1])
    fix s x s'
    assume "P s" "x \<in> set ys" "f s x = Inr s'"
    then show "P s'" using Cons.prems(3)[of s x s'] by simp
  qed
qed

lemma for_of_skip:
  assumes "P s"
    and "\<And>s y s'. P s \<Longrightarrow> y \<in> set xs \<Longrightarrow> f s y = Inr s' \<Longrightarrow> P s'"
    and "\<And>s. P s \<Longrightarrow> f s x = Inr s"
  shows "for_of f (xs @ x # ys) s = for_of f (xs @ ys) s"
proof (cases "for_of f xs s")
  case (Inl e)
  then show ?thesis by (simp add: for_of_append)
next
  case (Inr s1)
  then have "P s1" using assms(1,2) by (rule for_of_invariant)
  then have "f s1 x = Inr s1" by (rule assms(3))
  with Inr show ?thesis by (simp add: for_of_append)
qed

lemma for_of_fails:
  assumes "x \<in> set xs" and "P s"
    and "\<And>s y s'. P s \<Longrightarrow> y \<in> set xs \<Longrightarrow> f s y = Inr s' \<Longrightarrow> P s'"
    and "\<And>s. P s \<Longrightarrow> \<exists>e. f s x = Inl e"
  shows "\<exists>e. for_of f xs s = Inl e"
  using assms(1,2,3)
proof (induction xs arbitrary: s)
  case Nil
  then show ?case by simp
next
  case (Cons y ys)
  show ?case
  proof (cases "f s y")
    case (Inl e)
    then show ?thesis by simp
  next
    case (Inr s1)
    have p1: "P s1"
      by (rule Cons.prems(3)[OF Cons.prems(2) _ Inr]) simp
    from assms(4)[OF Cons.prems(2)] obtain e where "f s x = Inl e" ..
    with Inr have "x \<noteq> y" by auto
    with Cons.prems(1) have mem: "x \<in> set ys" by simp
    have "\<exists>e. for_of f ys s1 = Inl e"
    proof (rule Cons.IH[OF mem p1])
      fix s y' s'
      assume "P s" "y' \<in> set ys" "f s y' = Inr s'"
      then show "P s'" using Cons.prems(3)[of s y' s'] by simp
    qed
    with Inr show ?thesis by simp
  qed
qed

lemma for_of_succeeds:
  assumes "P s"
    and "\<And>s y s'. P s \<Longrightarrow> y \<in> set xs \<Longrightarrow> f s y = Inr s' \<Longrightarrow> P s'"
    and "\<And>s y. P s \<Longrightarrow> y \<in> set xs \<Longrightarrow> \<exists>s'. f s y = Inr s'"
  shows "\<exists>s'. for_of f xs s = Inr s'"
  using assms
proof (induction xs arbitrary: s)
  case Nil
  then show ?case by simp
next
  case (Cons y ys)
  from Cons.prems(3)[OF Cons.prems(1), of y] obtain s1 where s1: "f s y = Inr s1" by auto
  have p1: "P s1"
    by (rule Cons.prems(2)[OF Cons.prems(1) _ s1]) simp
  have "\<exists>s'. for_of f ys s1 = Inr s'"
  proof (rule Cons.IH[OF p1])
    fix s y' s'
    assume "P s" "y' \<in> set ys" "f s y' = Inr s'"
    then show "P s'" using Cons.prems(2)[of s y' s'] by simp
  next
    fix s y'
    assume "P s" "y' \<in> set ys"
    then show "\<exists>s'. f s y' = Inr s'" using Cons.prems(3)[of s y'] by simp
  qed
  with s1 show ?case by simp
qed

lemma keys_update: "keys (AList.update k v al) = insert k (keys al)"
  by (simp add: keys_def dom_update)

lemma keys_map_of: "k \<in> keys al \<longleftrightarrow> map_of al k \<noteq> None"
  by (simp add: keys_def map_of_eq_None_iff)

lemma keys_Nil: "keys [] = {}"
  by (simp add: keys_def)

lemma pass1_instruction_cases:
  "pass1_instruction ext os outputDir file c i =
     (if full_interface i then
        Inr (c\<lparr>interfaces := AList.update (name i)
                   (new_Interface ext i (js_and (impl file) (path_resolve ext outputDir))
                      (js_and (genPath file) (\<lambda>g. path_join ext g (name i @ ''.js''))))
                   (interfaces c),
               customTypes := AList.update (name i) ''interface'' (customTypes c)\<rparr>)
      else if full_dictionary i then
        Inr (c\<lparr>dictionaries := AList.update (name i)
                   (new_Dictionary ext i (js_and (genPath file) (\<lambda>g. path_join ext g (name i @ ''.js''))))
                   (dictionaries c),
               customTypes := AList.update (name i) ''dictionary'' (customTypes c)\<rparr>)
      else if type i = ''typedef'' then
        Inr (c\<lparr>typedefs := AList.update (name i) (new_Typedef i) (typedefs c)\<rparr>)
      else if recognized i \<or> suppressErrors os then Inr c
      else Inl (Error (''Can'' @ [CHR 0x27] @ ''t convert type '' @ [CHR 0x27] @ type i @ [CHR 0x27]), c))"
proof (cases "type i = ''interface''")
  case True
  then show ?thesis
    by (simp add: pass1_instruction_def Let_def new_Interface_def full_interface_def
        full_dictionary_def recognized_def)
next
  case ni: False
  show ?thesis
  proof (cases "type i = ''implements''")
    case True
    then show ?thesis
      by (simp add: pass1_instruction_def full_interface_def full_dictionary_def recognized_def)
  next
    case nm: False
    show ?thesis
    proof (cases "type i = ''dictionary''")
      case True
      then show ?thesis
        by (simp add: pass1_instruction_def Let_def new_Dictionary_def full_interface_def
            full_dictionary_def recognized_def)
    next
      case nd: False
      show ?thesis
      proof (cases "type i = ''typedef''")
        case True
        then show ?thesis
          by (simp add: pass1_instruction_def Let_def new_Typedef_def full_interface_def
              full_dictionary_def recognized_def)
      next
        case False
        with ni nm nd show ?thesis
          by (simp add: pass1_instruction_def full_interface_def full_dictionary_def recognized_def)
      qed
    qed
  qed
qed

lemma pass1_instruction_keys:
  assumes "pass1_instruction ext os outputDir file c i = Inr c'"
  shows "keys (interfaces c') = keys (interfaces c) \<union> (if full_interface i then {name i} else {})"
    and "keys (dictionaries c') = keys (dictionaries c) \<union> (if full_dictionary i then {name i} else {})"
    and "keys (customTypes c') = keys (customTypes c) \<union> (if full_interface i \<or> full_dictionary i then {name i} else {})"
  using assms
  by (auto simp: pass1_instruction_cases keys_update full_interface_def full_dictionary_def split: if_splits)

lemma pass2_instruction_cases:
  "pass2_instruction os c i =
     (if partial_interface i then
        (case map_of (interfaces c) (name i) of
           None \<Rightarrow> if suppressErrors os then Inr c
                   else Inl (TypeError ''Cannot read property idl of undefined'', c)
         | Some obj \<Rightarrow>
             Inr (c\<lparr>interfaces := AList.update (name i)
                        (obj\<lparr>obj_idl := push_partial (obj_idl obj) i\<rparr>) (interfaces c)\<rparr>))
      else if partial_dictionary i then
        (case map_of (dictionaries c) (name i) of
           None \<Rightarrow> if suppressErrors os then Inr c
                   else Inl (TypeError ''Cannot read property idl of undefined'', c)
         | Some obj \<Rightarrow>
             Inr (c\<lparr>dictionaries := AList.update (name i)
                        (obj\<lparr>obj_idl := push_partial (obj_idl obj) i\<rparr>) (dictionaries c)\<rparr>))
      else if is_implements i then
        (case map_of (interfaces c) (target i) of
           None \<Rightarrow> if suppressErrors os then Inr c
                   else Inl (TypeError ''Cannot read property implements of undefined'', c)
         | Some obj \<Rightarrow>
             Inr (c\<lparr>interfaces := AList.update (target i)
                        (Interface_implements obj (implements i)) (interfaces c)\<rparr>))
      else Inr c)"
proof (cases "type i = ''interface''")
  case True
  then show ?thesis
    by (simp add: pass2_instruction_def partial_interface_def partial_dictionary_def
        is_implements_def split: option.splits)
next
  case ni: False
  show ?thesis
  proof (cases "type i = ''dictionary''")
    case True
    then show ?thesis
      by (simp add: pass2_instruction_def partial_interface_def partial_dictionary_def
          is_implements_def split: option.splits)
  next
    case False
    with ni show ?thesis
      by (simp add: pass2_instruction_def partial_interface_def partial_dictionary_def
          is_implements_def split: option.splits)
  qed
qed

lemma pass2_instruction_keys:
  assumes "pass2_instruction os c i = Inr c'"
  shows "keys (interfaces c') = keys (interfaces c)"
    and "keys (dictionaries c') = keys (dictionaries c)"
    and "customTypes c' = customTypes c"
    and "typedefs c' = typedefs c"
  using assms
  by (auto simp: pass2_instruction_cases keys_update keys_map_of split: if_splits option.splits)

lemma pass1_flat:
  "pass1 ext os outputDir parsed c
   = for_of (\<lambda>c (file, i). pass1_instruction ext os outputDir file c i) (pairs parsed) c"
  by (simp add: pass1_def pairs_def for_of_nested)

lemma pass2_flat:
  "pass2 os parsed c = for_of (pass2_instruction os) (instructions parsed) c"
  by (simp add: pass2_def instructions_def for_of_nested_plain)

lemma snd_pairs: "map snd (pairs parsed) = instructions parsed"
  by (induction parsed) (simp_all add: pairs_def instructions_def comp_def)

lemma pass1_loop_keys:
  assumes "for_of (\<lambda>c (file, i). pass1_instruction ext os outputDir file c i) ps c = Inr c'"
  shows "keys (interfaces c') = keys (interfaces c) \<union> name ` set (filter full_interface (map snd ps))
       \<and> keys (dictionaries c') = keys (dictionaries c) \<union> name ` set (filter full_dictionary (map snd ps))
       \<and> keys (customTypes c') = keys (customTypes c) \<union>
            name ` set (filter (\<lambda>i. full_interface i \<or> full_dictionary i) (map snd ps))"
  using assms
proof (induction ps arbitrary: c)
  case Nil
  then show ?case by simp
next
  case (Cons p ps)
  obtain fl i where p: "p = (fl, i)" by (cases p)
  from Cons.prems p obtain c1 where
    c1: "pass1_instruction ext os outputDir fl c i = Inr c1" and
    rest: "for_of (\<lambda>c (file, i). pass1_instruction ext os outputDir file c i) ps c1 = Inr c'"
    by (cases "pass1_instruction ext os outputDir fl c i") simp_all
  note k = pass1_instruction_keys[OF c1]
  from Cons.IH[OF rest] show ?case
    unfolding k p by auto
qed

lemma pass2_loop_keys:
  assumes "for_of (pass2_instruction os) is c = Inr c'"
  shows "keys (interfaces c') = keys (interfaces c) \<and> keys (dictionaries c') = keys (dictionaries c)
       \<and> customTypes c' = customTypes c \<and> typedefs c' = typedefs c"
proof (rule for_of_invariant[OF assms, where P = "\<lambda>s. keys (interfaces s) = keys (interfaces c)
        \<and> keys (dictionaries s) = keys (dictionaries c) \<and> customTypes s = customTypes c
        \<and> typedefs s = typedefs c"])
  show "keys (interfaces c) = keys (interfaces c) \<and> keys (dictionaries c) = keys (dictionaries c)
        \<and> customTypes c = customTypes c \<and> typedefs c = typedefs c" by simp
next
  fix s x s'
  assume "keys (interfaces s) = keys (interfaces c) \<and> keys (dictionaries s) = keys (dictionaries c)
        \<and> customTypes s = customTypes c \<and> typedefs s = typedefs c"
    and "x \<in> set is" and "pass2_instruction os s x = Inr s'"
  then show "keys (interfaces s') = keys (interfaces c) \<and> keys (dictionaries s') = keys (dictionaries c)
        \<and> customTypes s' = customTypes c \<and> typedefs s' = typedefs c"
    using pass2_instruction_keys[of os s x s'] by simp
qed

lemma set_update_cases:
  "(n, k) \<in> set (AList.update a b al) \<Longrightarrow> (n, k) = (a, b) \<or> (n, k) \<in> set al"
  by (induction al) (auto split: if_splits)

lemma pass1_instruction_consistent:
  assumes "pass1_instruction ext os outputDir file c i = Inr c'" and "index_consistent c"
  shows "index_consistent c'"
proof -
  have sub: "keys (interfaces c) \<subseteq> keys (interfaces c')" "keys (dictionaries c) \<subseteq> keys (dictionaries c')"
    using pass1_instruction_keys[OF assms(1)] by auto
  show ?thesis
  proof (cases "full_interface i")
    case True
    with assms(1) have c': "customTypes c' = AList.update (name i) ''interface'' (customTypes c)"
      "name i \<in> keys (interfaces c')"
      by (auto simp: pass1_instruction_cases keys_update)
    show ?thesis
      unfolding index_consistent_def c'(1)
      using assms(2) sub c'(2) by (auto simp: index_consistent_def dest!: set_update_cases)
  next
    case nf: False
    show ?thesis
    proof (cases "full_dictionary i")
      case True
      with nf assms(1) have c': "customTypes c' = AList.update (name i) ''dictionary'' (customTypes c)"
        "name i \<in> keys (dictionaries c')"
        by (auto simp: pass1_instruction_cases keys_update)
      show ?thesis
        unfolding index_consistent_def c'(1)
        using assms(2) sub c'(2) by (auto simp: index_consistent_def dest!: set_update_cases)
    next
      case False
      with nf assms(1) have "customTypes c' = customTypes c"
        by (auto simp: pass1_instruction_cases split: if_splits)
      then show ?thesis
        using assms(2) sub by (fastforce simp: index_consistent_def)
    qed
  qed
qed

lemma pass1_instruction_distinct:
  assumes "pass1_instruction ext os outputDir file c i = Inr c'"
    and "distinct (map fst (interfaces c)) \<and> distinct (map fst (dictionaries c))
         \<and> distinct (map fst (typedefs c)) \<and> distinct (map fst (customTypes c))"
  shows "distinct (map fst (interfaces c')) \<and> distinct (map fst (dictionaries c'))
         \<and> distinct (map fst (typedefs c')) \<and> distinct (map fst (customTypes c'))"
  using assms
  by (auto simp: pass1_instruction_cases distinct_update split: if_splits)

lemma parse_Inr:
  assumes "parse_contents ext contents = Inr parsed"
    and "parse ext os outputDir c0 contents = Inr c"
  obtains c1 where
    "for_of (\<lambda>c (fl, i). pass1_instruction ext os outputDir fl c i) (pairs parsed) c0 = Inr c1"
    and "for_of (pass2_instruction os) (instructions parsed) c1 = Inr c"
  using assms
  by (auto simp: parse_def pass1_flat pass2_flat split: sum.splits)

lemma pass1_loop_consistent:
  assumes "for_of (\<lambda>c (fl, i). pass1_instruction ext os outputDir fl c i) ps c = Inr c'"
    and "index_consistent c"
  shows "index_consistent c'"
proof (rule for_of_invariant[where P = index_consistent, OF assms])
  fix s x s'
  assume "index_consistent s" and "(case x of (fl, i) \<Rightarrow> pass1_instruction ext os outputDir fl s i) = Inr s'"
  then show "index_consistent s'"
    by (cases x) (auto intro: pass1_instruction_consistent)
qed

lemma pass1_loop_distinct:
  assumes "for_of (\<lambda>c (fl, i). pass1_instruction ext os outputDir fl c i) ps c = Inr c'"
    and "distinct (map fst (interfaces c)) \<and> distinct (map fst (dictionaries c))
         \<and> distinct (map fst (typedefs c)) \<and> distinct (map fst (customTypes c))"
  shows "distinct (map fst (interfaces c')) \<and> distinct (map fst (dictionaries c'))
         \<and> distinct (map fst (typedefs c')) \<and> distinct (map fst (customTypes c'))"
proof (rule for_of_invariant[where P = "\<lambda>s. distinct (map fst (interfaces s)) \<and> distinct (map fst (dictionaries s))
         \<and> distinct (map fst (typedefs s)) \<and> distinct (map fst (customTypes s))", OF assms])
  fix s x s'
  assume "distinct (map fst (interfaces s)) \<and> distinct (map fst (dictionaries s))
         \<and> distinct (map fst (typedefs s)) \<and> distinct (map fst (customTypes s))"
    and "(case x of (fl, i) \<Rightarrow> pass1_instruction ext os outputDir fl s i) = Inr s'"
  then show "distinct (map fst (interfaces s')) \<and> distinct (map fst (dictionaries s'))
         \<and> distinct (map fst (typedefs s')) \<and> distinct (map fst (customTypes s'))"
    by (cases x) (auto dest: pass1_instruction_distinct)
qed

lemma initialize_simps:
  "interfaces (initialize c) = []" "dictionaries (initialize c) = []"
  "typedefs (initialize c) = []" "customTypes (initialize c) = []"
  "implSuffix (initialize c) = implSuffix c"
  by (simp_all add: initialize_def)

lemma model_error_not_full:
  assumes "model_error every i"
  shows "\<not> full_interface i" and "\<not> full_dictionary i" and "type i \<noteq> ''typedef''"
  using assms
  by (auto simp: model_error_def unmatched_partial_def unknown_target_def recognized_def
      full_interface_def full_dictionary_def partial_interface_def partial_dictionary_def
      is_implements_def)

lemma pass1_instruction_relaxed:
  assumes "suppressErrors os"
  shows "\<exists>c'. pass1_instruction ext os outputDir fl c i = Inr c'"
  using assms by (simp add: pass1_instruction_cases)

lemma pass2_instruction_relaxed:
  assumes "suppressErrors os"
  shows "\<exists>c'. pass2_instruction os c i = Inr c'"
  using assms by (simp add: pass2_instruction_cases split: option.splits)

lemma pass1_instruction_skips:
  assumes "model_error every i" and "suppressErrors os"
  shows "pass1_instruction ext os outputDir fl c i = Inr c"
  using model_error_not_full[OF assms(1)] assms(2)
  by (simp add: pass1_instruction_cases)

lemma pass1_instruction_unrecognized:
  assumes "\<not> recognized i" and "\<not> suppressErrors os"
  shows "\<exists>failure. pass1_instruction ext os outputDir fl c i = Inl failure"
proof -
  from assms(1) have "\<not> full_interface i" "\<not> full_dictionary i" "type i \<noteq> ''typedef''"
    by (auto simp: recognized_def full_interface_def full_dictionary_def)
  with assms show ?thesis by (simp add: pass1_instruction_cases)
qed

lemma pass2_instruction_skips:
  assumes "model_error every i" and "suppressErrors os"
    and "keys (interfaces s) = name ` set (filter full_interface every)"
    and "keys (dictionaries s) = name ` set (filter full_dictionary every)"
  shows "pass2_instruction os s i = Inr s"
proof -
  consider (p) "unmatched_partial every i" | (t) "unknown_target every i" | (u) "\<not> recognized i"
    using assms(1) by (auto simp: model_error_def)
  then show ?thesis
  proof cases
    case p
    then consider (pi) "partial_interface i" "map_of (interfaces s) (name i) = None"
      | (pd) "partial_dictionary i" "\<not> partial_interface i" "map_of (dictionaries s) (name i) = None"
      using assms(3,4) keys_map_of[of "name i" "interfaces s"] keys_map_of[of "name i" "dictionaries s"]
      by (auto simp: unmatched_partial_def partial_interface_def partial_dictionary_def)
    then show ?thesis
      using assms(2) by cases (simp_all add: pass2_instruction_cases)
  next
    case t
    then have "is_implements i" "\<not> partial_interface i" "\<not> partial_dictionary i"
      "map_of (interfaces s) (target i) = None"
      using assms(3) keys_map_of[of "target i" "interfaces s"]
      by (auto simp: unknown_target_def partial_interface_def partial_dictionary_def is_implements_def)
    then show ?thesis
      using assms(2) by (simp add: pass2_instruction_cases)
  next
    case u
    then have "\<not> is_implements i" "\<not> partial_interface i" "\<not> partial_dictionary i"
      by (auto simp: recognized_def partial_interface_def partial_dictionary_def is_implements_def)
    then show ?thesis
      by (simp add: pass2_instruction_cases)
  qed
qed

lemma pass2_instruction_throws:
  assumes "unmatched_partial every i \<or> unknown_target every i" and "\<not> suppressErrors os"
    and "keys (interfaces s) = name ` set (filter full_interface every)"
    and "keys (dictionaries s) = name ` set (filter full_dictionary every)"
  shows "\<exists>failure. pass2_instruction os s i = Inl failure"
proof -
  consider (p) "unmatched_partial every i" | (t) "unknown_target every i"
    using assms(1) by auto
  then show ?thesis
  proof cases
    case p
    then consider (pi) "partial_interface i" "map_of (interfaces s) (name i) = None"
      | (pd) "partial_dictionary i" "\<not> partial_interface i" "map_of (dictionaries s) (name i) = None"
      using assms(3,4) keys_map_of[of "name i" "interfaces s"] keys_map_of[of "name i" "dictionaries s"]
      by (auto simp: unmatched_partial_def partial_interface_def partial_dictionary_def)
    then show ?thesis
      using assms(2) by cases (simp_all add: pass2_instruction_cases)
  next
    case t
    then have "is_implements i" "\<not> partial_interface i" "\<not> partial_dictionary i"
      "map_of (interfaces s) (target i) = None"
      using assms(3) keys_map_of[of "target i" "interfaces s"]
      by (auto simp: unknown_target_def partial_interface_def partial_dictionary_def is_implements_def)
    then show ?thesis
      using assms(2) by (simp add: pass2_instruction_cases)
  qed
qed

lemma pass1_instruction_file:
  "pass1_instruction ext os outputDir (fl\<lparr>idl := zs\<rparr>) = pass1_instruction ext os outputDir fl"
  by (intro ext) (simp add: pass1_instruction_def)

lemma pass1_relaxed:
  assumes "suppressErrors os"
  shows "\<exists>c1. pass1 ext os outputDir parsed c = Inr c1"
  unfolding pass1_flat
proof (rule for_of_succeeds[where P = "\<lambda>s. True"])
  fix s y
  show "\<exists>s'. (case y of (fl, i) \<Rightarrow> pass1_instruction ext os outputDir fl s i) = Inr s'"
    using pass1_instruction_relaxed[OF assms] by (cases y) simp
qed simp_all

lemma pass2_relaxed:
  assumes "suppressErrors os"
  shows "\<exists>c2. pass2 os parsed c = Inr c2"
  unfolding pass2_flat
proof (rule for_of_succeeds[where P = "\<lambda>s. True"])
  fix s y
  show "\<exists>s'. pass2_instruction os s y = Inr s'"
    using pass2_instruction_relaxed[OF assms] by simp
qed simp_all

lemma pass1_omit:
  assumes "model_error every i" and "suppressErrors os"
  shows "pass1 ext os outputDir (pre @ [fl\<lparr>idl := xs @ [i] @ ys\<rparr>] @ post) c
       = pass1 ext os outputDir (pre @ [fl\<lparr>idl := xs @ ys\<rparr>] @ post) c"
proof -
  define outer where
    "outer = (\<lambda>c file. for_of (pass1_instruction ext os outputDir file) (idl file) c)"
  have skip: "for_of (pass1_instruction ext os outputDir fl) (xs @ i # ys) s
      = for_of (pass1_instruction ext os outputDir fl) (xs @ ys) s" for s
    by (rule for_of_skip[where P = "\<lambda>s. True"])
       (simp_all add: pass1_instruction_skips[OF assms])
  have step: "outer s (fl\<lparr>idl := xs @ i # ys\<rparr>) = outer s (fl\<lparr>idl := xs @ ys\<rparr>)" for s
    unfolding outer_def using skip[of s] by (simp add: pass1_instruction_file)
  have "for_of outer (pre @ [fl\<lparr>idl := xs @ [i] @ ys\<rparr>] @ post) c
      = for_of outer (pre @ [fl\<lparr>idl := xs @ ys\<rparr>] @ post) c"
    by (simp add: for_of_append step split: sum.splits)
  then show ?thesis
    unfolding pass1_def outer_def .
qed

lemma pass2_omit:
  assumes "model_error every i" and "suppressErrors os"
    and "keys (interfaces c) = name ` set (filter full_interface every)"
    and "keys (dictionaries c) = name ` set (filter full_dictionary every)"
  shows "pass2 os (pre @ [fl\<lparr>idl := xs @ [i] @ ys\<rparr>] @ post) c
       = pass2 os (pre @ [fl\<lparr>idl := xs @ ys\<rparr>] @ post) c"
proof -
  let ?P = "\<lambda>s::Context. keys (interfaces s) = name ` set (filter full_interface every)
               \<and> keys (dictionaries s) = name ` set (filter full_dictionary every)"
  have "for_of (pass2_instruction os) ((instructions pre @ xs) @ i # (ys @ instructions post)) c
      = for_of (pass2_instruction os) ((instructions pre @ xs) @ (ys @ instructions post)) c"
  proof (rule for_of_skip[where P = ?P])
    show "?P c" using assms(3,4) by simp
  next
    fix s y s'
    assume "?P s" and "pass2_instruction os s y = Inr s'"
    then show "?P s'" using pass2_instruction_keys[of os s y s'] by simp
  next
    fix s
    assume "?P s"
    then show "pass2_instruction os s i = Inr s"
      using pass2_instruction_skips[OF assms(1,2)] by simp
  qed
  then show ?thesis
    by (simp add: pass2_flat instructions_def)
qed

lemma pass1_throws:
  assumes "i \<in> set (instructions parsed)" and "\<not> recognized i" and "\<not> suppressErrors os"
  shows "\<exists>failure. pass1 ext os outputDir parsed c = Inl failure"
proof -
  from assms(1) obtain fl where mem: "(fl, i) \<in> set (pairs parsed)"
    unfolding snd_pairs[symmetric] by auto
  show ?thesis
    unfolding pass1_flat
  proof (rule for_of_fails[where P = "\<lambda>s. True", OF mem])
    fix s
    show "\<exists>e. (case (fl, i) of (fl, i) \<Rightarrow> pass1_instruction ext os outputDir fl s i) = Inl e"
      using pass1_instruction_unrecognized[OF assms(2,3)] by simp
  qed simp_all
qed

lemma pass2_throws:
  assumes "i \<in> set (instructions parsed)"
    and "unmatched_partial every i \<or> unknown_target every i" and "\<not> suppressErrors os"
    and "keys (interfaces c) = name ` set (filter full_interface every)"
    and "keys (dictionaries c) = name ` set (filter full_dictionary every)"
  shows "\<exists>failure. pass2 os parsed c = Inl failure"
  unfolding pass2_flat
proof (rule for_of_fails[where P = "\<lambda>s. keys (interfaces s) = name ` set (filter full_interface every)
               \<and> keys (dictionaries s) = name ` set (filter full_dictionary every)", OF assms(1)])
  show "keys (interfaces c) = name ` set (filter full_interface every)
               \<and> keys (dictionaries c) = name ` set (filter full_dictionary every)"
    using assms(4,5) by simp
next
  fix s :: Context and y s'
  assume "keys (interfaces s) = name ` set (filter full_interface every)
               \<and> keys (dictionaries s) = name ` set (filter full_dictionary every)"
    and "pass2_instruction os s y = Inr s'"
  then show "keys (interfaces s') = name ` set (filter full_interface every)
               \<and> keys (dictionaries s') = name ` set (filter full_dictionary every)"
    using pass2_instruction_keys[of os s y s'] by simp
next
  fix s :: Context
  assume "keys (interfaces s) = name ` set (filter full_interface every)
               \<and> keys (dictionaries s) = name ` set (filter full_dictionary every)"
  then show "\<exists>e. pass2_instruction os s i = Inl e"
    using pass2_instruction_throws[OF assms(2,3)] by simp
qed

lemma pass1_keys_initialized:
  assumes "pass1 ext os outputDir parsed (initialize c0) = Inr c1"
  shows "keys (interfaces c1) = name ` set (filter full_interface (instructions parsed))"
    and "keys (dictionaries c1) = name ` set (filter full_dictionary (instructions parsed))"
  using pass1_loop_keys[OF assms[unfolded pass1_flat], unfolded snd_pairs initialize_simps keys_Nil]
  by simp_all

lemma pass1_strict_recognized:
  assumes "pass1 ext os outputDir parsed c = Inr c1" and "\<not> suppressErrors os"
    and "i \<in> set (instructions parsed)"
  shows "recognized i"
  using pass1_throws[OF assms(3) _ assms(2), of ext outputDir c] assms(1) by auto

lemma pass1_succeeds:
  assumes "suppressErrors os \<or> (\<forall>i \<in> set (instructions parsed). recognized i)"
  shows "\<exists>c1. pass1 ext os outputDir parsed c = Inr c1"
  unfolding pass1_flat
proof (rule for_of_succeeds[where P = "\<lambda>s. True"])
  fix s y
  assume "y \<in> set (pairs parsed)"
  then have "snd y \<in> set (instructions parsed)"
    unfolding snd_pairs[symmetric] by auto
  then have "suppressErrors os \<or> recognized (snd y)" using assms by auto
  then show "\<exists>s'. (case y of (fl, i) \<Rightarrow> pass1_instruction ext os outputDir fl s i) = Inr s'"
    by (cases y) (auto simp: pass1_instruction_cases)
qed simp_all

lemma pass2_instruction_succeeds:
  assumes "suppressErrors os \<or> \<not> (unmatched_partial every i \<or> unknown_target every i)"
    and "keys (interfaces s) = name ` set (filter full_interface every)"
    and "keys (dictionaries s) = name ` set (filter full_dictionary every)"
  shows "\<exists>s'. pass2_instruction os s i = Inr s'"
proof (cases "suppressErrors os")
  case True
  then show ?thesis by (rule pass2_instruction_relaxed)
next
  case False
  with assms(1) have n: "\<not> unmatched_partial every i" "\<not> unknown_target every i" by auto
  have a: "partial_interface i \<Longrightarrow> map_of (interfaces s) (name i) \<noteq> None"
    using n(1) assms(2) keys_map_of[of "name i" "interfaces s"]
    by (auto simp: unmatched_partial_def)
  have b: "partial_dictionary i \<Longrightarrow> map_of (dictionaries s) (name i) \<noteq> None"
    using n(1) assms(3) keys_map_of[of "name i" "dictionaries s"]
    by (auto simp: unmatched_partial_def)
  have c: "is_implements i \<Longrightarrow> map_of (interfaces s) (target i) \<noteq> None"
    using n(2) assms(2) keys_map_of[of "target i" "interfaces s"]
    by (auto simp: unknown_target_def)
  show ?thesis
    using a b c by (auto simp: pass2_instruction_cases split: option.splits)
qed

lemma pass2_succeeds:
  assumes "suppressErrors os \<or>
           (\<forall>i \<in> set (instructions parsed). \<not> (unmatched_partial every i \<or> unknown_target every i))"
    and "keys (interfaces c) = name ` set (filter full_interface every)"
    and "keys (dictionaries c) = name ` set (filter full_dictionary every)"
  shows "\<exists>c2. pass2 os parsed c = Inr c2"
  unfolding pass2_flat
proof (rule for_of_succeeds[where P = "\<lambda>s. keys (interfaces s) = name ` set (filter full_interface every)
               \<and> keys (dictionaries s) = name ` set (filter full_dictionary every)"])
  show "keys (interfaces c) = name ` set (filter full_interface every)
               \<and> keys (dictionaries c) = name ` set (filter full_dictionary every)"
    using assms(2,3) by simp
next
  fix s :: Context and y s'
  assume "keys (interfaces s) = name ` set (filter full_interface every)
               \<and> keys (dictionaries s) = name ` set (filter full_dictionary every)"
    and "pass2_instruction os s y = Inr s'"
  then show "keys (interfaces s') = name ` set (filter full_interface every)
               \<and> keys (dictionaries s') = name ` set (filter full_dictionary every)"
    using pass2_instruction_keys[of os s y s'] by simp
next
  fix s :: Context and y
  assume "keys (interfaces s) = name ` set (filter full_interface every)
               \<and> keys (dictionaries s) = name ` set (filter full_dictionary every)"
    and "y \<in> set (instructions parsed)"
  then show "\<exists>s'. pass2_instruction os s y = Inr s'"
    using assms(1) by (intro pass2_instruction_succeeds[where every = every]) auto
qed

lemma parse_succeeds_iff:
  assumes "parse_contents ext contents = Inr parsed"
  shows "(\<exists>c. parse ext os outputDir (initialize c0) contents = Inr c)
     \<longleftrightarrow> suppressErrors os \<or> (\<forall>i \<in> set (instructions parsed). \<not> model_error (instructions parsed) i)"
proof
  assume "\<exists>c. parse ext os outputDir (initialize c0) contents = Inr c"
  then obtain c c1 where c1: "pass1 ext os outputDir parsed (initialize c0) = Inr c1"
    and c: "pass2 os parsed c1 = Inr c"
    using assms by (auto simp: parse_def split: sum.splits)
  show "suppressErrors os \<or> (\<forall>i \<in> set (instructions parsed). \<not> model_error (instructions parsed) i)"
  proof (cases "suppressErrors os")
    case True
    then show ?thesis by simp
  next
    case False
    have "\<not> model_error (instructions parsed) i" if mem: "i \<in> set (instructions parsed)" for i
    proof
      assume me: "model_error (instructions parsed) i"
      have "recognized i" using c1 False mem by (rule pass1_strict_recognized)
      with me have "unmatched_partial (instructions parsed) i \<or> unknown_target (instructions parsed) i"
        by (auto simp: model_error_def)
      from pass2_throws[OF mem this False pass1_keys_initialized[OF c1]] c
      show False by auto
    qed
    then show ?thesis by blast
  qed
next
  assume a: "suppressErrors os \<or> (\<forall>i \<in> set (instructions parsed). \<not> model_error (instructions parsed) i)"
  then have "suppressErrors os \<or> (\<forall>i \<in> set (instructions parsed). recognized i)"
    by (auto simp: model_error_def)
  from pass1_succeeds[OF this] obtain c1 where
    c1: "pass1 ext os outputDir parsed (initialize c0) = Inr c1" by blast
  from a have "suppressErrors os \<or>
           (\<forall>i \<in> set (instructions parsed).
              \<not> (unmatched_partial (instructions parsed) i \<or> unknown_target (instructions parsed) i))"
    by (auto simp: model_error_def)
  from pass2_succeeds[OF this pass1_keys_initialized[OF c1]] obtain c where
    "pass2 os parsed c1 = Inr c" by blast
  with c1 assms show "\<exists>c. parse ext os outputDir (initialize c0) contents = Inr c"
    by (simp add: parse_def)
qed

lemma model_error_set_cong:
  assumes "set every = set every'"
  shows "model_error every i = model_error every' i"
  using assms
  by (simp add: model_error_def unmatched_partial_def unknown_target_def)

lemma pass1_instruction_interface:
  assumes "pass1_instruction ext os outputDir fl c i = Inr c'"
  shows "if full_interface i \<and> name i = n
         then (\<exists>obj. map_of (interfaces c') n = Some obj \<and> obj_idl obj = i \<and> mixins obj = [])
         else map_of (interfaces c') n = map_of (interfaces c) n"
  using assms
  by (auto simp: pass1_instruction_cases update_conv' new_Interface_def split: if_splits)

lemma pass1_loop_interface:
  assumes "for_of (\<lambda>c (fl, i). pass1_instruction ext os outputDir fl c i) ps c = Inr c'"
    and "filter (\<lambda>i. full_interface i \<and> name i = n) (map snd ps) \<noteq> []"
  shows "\<exists>obj. map_of (interfaces c') n = Some obj
           \<and> obj_idl obj = last (filter (\<lambda>i. full_interface i \<and> name i = n) (map snd ps))
           \<and> mixins obj = []"
  using assms
proof (induction ps arbitrary: c' rule: rev_induct)
  case Nil
  then show ?case by simp
next
  case (snoc p ps)
  obtain fl i where p: "p = (fl, i)" by (cases p)
  from snoc.prems(1) p obtain c1 where
    c1: "for_of (\<lambda>c (fl, i). pass1_instruction ext os outputDir fl c i) ps c = Inr c1"
    and st: "pass1_instruction ext os outputDir fl c1 i = Inr c'"
    by (auto simp: for_of_append split: sum.splits)
  note step = pass1_instruction_interface[OF st, of n]
  show ?case
  proof (cases "full_interface i \<and> name i = n")
    case True
    with step p show ?thesis by simp
  next
    case False
    with snoc.prems(2) p have ne: "filter (\<lambda>i. full_interface i \<and> name i = n) (map snd ps) \<noteq> []"
      by simp
    from snoc.IH[OF c1 ne] step False p show ?thesis by simp
  qed
qed

lemma pass2_instruction_interface:
  assumes "pass2_instruction os c i = Inr c'" and "map_of (interfaces c) n = Some obj"
  shows "\<exists>obj'. map_of (interfaces c') n = Some obj'
          \<and> members (obj_idl obj') = members (obj_idl obj) @ (if partial_interface i \<and> name i = n then members i else [])
          \<and> extAttrs (obj_idl obj') = extAttrs (obj_idl obj) @ (if partial_interface i \<and> name i = n then extAttrs i else [])
          \<and> mixins obj' = mixins obj @ (if is_implements i \<and> target i = n then [implements i] else [])"
proof -
  have x: "is_implements i \<Longrightarrow> \<not> partial_interface i \<and> \<not> partial_dictionary i"
    by (auto simp: is_implements_def partial_interface_def partial_dictionary_def)
  show ?thesis
    using assms x
    by (auto simp: pass2_instruction_cases update_conv' push_partial_def Interface_implements_def
        split: if_splits option.splits)
qed

lemma pass2_loop_interface:
  assumes "for_of (pass2_instruction os) is c = Inr c'" and "map_of (interfaces c) n = Some obj"
  shows "\<exists>obj'. map_of (interfaces c') n = Some obj'
          \<and> members (obj_idl obj') = members (obj_idl obj) @
              concat (map members (filter (\<lambda>i. partial_interface i \<and> name i = n) is))
          \<and> extAttrs (obj_idl obj') = extAttrs (obj_idl obj) @
              concat (map extAttrs (filter (\<lambda>i. partial_interface i \<and> name i = n) is))
          \<and> mixins obj' = mixins obj @
              map implements (filter (\<lambda>i. is_implements i \<and> target i = n) is)"
  using assms
proof (induction "is" arbitrary: c obj)
  case Nil
  then show ?case by simp
next
  case (Cons i rest)
  from Cons.prems(1) obtain c1 where st: "pass2_instruction os c i = Inr c1"
    and r: "for_of (pass2_instruction os) rest c1 = Inr c'"
    by (cases "pass2_instruction os c i") simp_all
  from pass2_instruction_interface[OF st Cons.prems(2)] obtain obj1 where
    o1: "map_of (interfaces c1) n = Some obj1"
    "members (obj_idl obj1) = members (obj_idl obj) @ (if partial_interface i \<and> name i = n then members i else [])"
    "extAttrs (obj_idl obj1) = extAttrs (obj_idl obj) @ (if partial_interface i \<and> name i = n then extAttrs i else [])"
    "mixins obj1 = mixins obj @ (if is_implements i \<and> target i = n then [implements i] else [])"
    by blast
  from Cons.IH[OF r o1(1)] obtain obj' where
    o': "map_of (interfaces c') n = Some obj'"
    "members (obj_idl obj') = members (obj_idl obj1) @
              concat (map members (filter (\<lambda>i. partial_interface i \<and> name i = n) rest))"
    "extAttrs (obj_idl obj') = extAttrs (obj_idl obj1) @
              concat (map extAttrs (filter (\<lambda>i. partial_interface i \<and> name i = n) rest))"
    "mixins obj' = mixins obj1 @
              map implements (filter (\<lambda>i. is_implements i \<and> target i = n) rest)"
    by blast
  show ?case
    using o' o1(2,3,4) by simp
qed

lemma parse_interface:
  assumes "parse_contents ext contents = Inr parsed"
    and "parse ext os outputDir (initialize c0) contents = Inr c"
    and "filter (\<lambda>i. full_interface i \<and> name i = n) (instructions parsed) \<noteq> []"
  shows "\<exists>obj. map_of (interfaces c) n = Some obj
          \<and> members (obj_idl obj) =
              members (last (filter (\<lambda>i. full_interface i \<and> name i = n) (instructions parsed))) @
              concat (map members (filter (\<lambda>i. partial_interface i \<and> name i = n) (instructions parsed)))
          \<and> extAttrs (obj_idl obj) =
              extAttrs (last (filter (\<lambda>i. full_interface i \<and> name i = n) (instructions parsed))) @
              concat (map extAttrs (filter (\<lambda>i. partial_interface i \<and> name i = n) (instructions parsed)))
          \<and> mixins obj = map implements (filter (\<lambda>i. is_implements i \<and> target i = n) (instructions parsed))"
proof -
  from assms(1,2) obtain c1 where
    p1: "for_of (\<lambda>c (fl, i). pass1_instruction ext os outputDir fl c i) (pairs parsed) (initialize c0) = Inr c1"
    and p2: "for_of (pass2_instruction os) (instructions parsed) c1 = Inr c"
    by (rule parse_Inr)
  from pass1_loop_interface[OF p1, of n] assms(3) obtain obj1 where
    o1: "map_of (interfaces c1) n = Some obj1"
      "obj_idl obj1 = last (filter (\<lambda>i. full_interface i \<and> name i = n) (instructions parsed))"
      "mixins obj1 = []"
    unfolding snd_pairs by blast
  from pass2_loop_interface[OF p2 o1(1)] show ?thesis
    unfolding o1(2,3) by simp
qed

lemma parse_contents_swap:
  assumes "parse_contents ext [d1, d2] = Inr [D1, D2]"
  shows "parse_contents ext [d2, d1] = Inr [D2, D1]"
  using assms by (auto simp: parse_contents_def split: sum.splits)

lemma filter_full_interface:
  "filter (\<lambda>i. full_interface i \<and> name i = n) xs
   = filter (\<lambda>i. \<not> partial i) (filter (\<lambda>i. type i = ''interface'' \<and> name i = n) xs)"
  by (auto simp: full_interface_def intro: filter_cong)

lemma filter_partial_interface:
  "filter (\<lambda>i. partial_interface i \<and> name i = n) xs
   = filter partial (filter (\<lambda>i. type i = ''interface'' \<and> name i = n) xs)"
  by (auto simp: partial_interface_def intro: filter_cong)

lemma fs_writeFile_written:
  assumes "fs_writeFile fs p content = Inr fs'"
  shows "written fs' = written fs @ [(p, content)]"
  using assms by (auto simp: fs_writeFile_def split: option.splits fnode.splits)

lemma write_interface_written:
  assumes "write_interface ext c up outputDir fs obj = Inr fs'"
  shows "\<exists>ws. written fs' = written fs @ ws
            \<and> map fst ws = (if imported obj then [] else [output_file ext outputDir (obj_name obj)])
            \<and> (\<forall>w \<in> set ws. imports_utils ext outputDir up (snd w))"
proof (cases "imported obj")
  case True
  with assms show ?thesis by (simp add: write_interface_def)
next
  case False
  with assms obtain source d formatted where
    f: "prettify ext (interface_source (relativeUtils_of ext outputDir up) source
           (relative_looking (fix_separators (path_relative ext outputDir d) @ ''/'' @ obj_name obj @ implSuffix c)))
        = Inr formatted"
    and w: "fs_writeFile fs (path_join ext outputDir (obj_name obj @ ''.js'')) formatted = Inr fs'"
    by (auto simp: write_interface_def throwing_def split: sum.splits option.splits)
  from f have "imports_utils ext outputDir up formatted"
    unfolding imports_utils_def interface_source_def by (metis append.assoc)
  with fs_writeFile_written[OF w] False show ?thesis
    by (simp add: output_file_def)
qed

lemma write_dictionary_written:
  assumes "write_dictionary ext c up outputDir fs obj = Inr fs'"
  shows "\<exists>ws. written fs' = written fs @ ws
            \<and> map fst ws = (if imported obj then [] else [output_file ext outputDir (obj_name obj)])
            \<and> (\<forall>w \<in> set ws. imports_utils ext outputDir up (snd w))"
proof (cases "imported obj")
  case True
  with assms show ?thesis by (simp add: write_dictionary_def)
next
  case False
  with assms obtain source formatted where
    f: "prettify ext (dictionary_source (relativeUtils_of ext outputDir up) source) = Inr formatted"
    and w: "fs_writeFile fs (path_join ext outputDir (obj_name obj @ ''.js'')) formatted = Inr fs'"
    by (auto simp: write_dictionary_def throwing_def split: sum.splits option.splits)
  from f have "imports_utils ext outputDir up formatted"
    unfolding imports_utils_def dictionary_source_def by blast
  with fs_writeFile_written[OF w] False show ?thesis
    by (simp add: output_file_def)
qed

lemma for_of_written:
  assumes "for_of body objs fs = Inr fs'"
    and "\<And>fs obj fs'. body fs obj = Inr fs' \<Longrightarrow>
           \<exists>ws. written fs' = written fs @ ws
             \<and> map fst ws = (if skip obj then [] else [out obj])
             \<and> (\<forall>w \<in> set ws. good (snd w))"
  shows "\<exists>ws. written fs' = written fs @ ws
            \<and> map fst ws = map out (filter (\<lambda>obj. \<not> skip obj) objs)
            \<and> (\<forall>w \<in> set ws. good (snd w))"
  using assms(1)
proof (induction objs arbitrary: fs)
  case Nil
  then show ?case by simp
next
  case (Cons obj objs)
  from Cons.prems obtain fs1 where b: "body fs obj = Inr fs1"
    and r: "for_of body objs fs1 = Inr fs'"
    by (cases "body fs obj") simp_all
  from assms(2)[OF b] obtain ws1 where
    w1: "written fs1 = written fs @ ws1" "map fst ws1 = (if skip obj then [] else [out obj])"
      "\<forall>w \<in> set ws1. good (snd w)" by blast
  from Cons.IH[OF r] obtain ws2 where
    w2: "written fs' = written fs1 @ ws2" "map fst ws2 = map out (filter (\<lambda>obj. \<not> skip obj) objs)"
      "\<forall>w \<in> set ws2. good (snd w)" by blast
  have "written fs' = written fs @ (ws1 @ ws2)" using w1(1) w2(1) by simp
  moreover have "map fst (ws1 @ ws2) = map out (filter (\<lambda>obj. \<not> skip obj) (obj # objs))"
    using w1(2) w2(2) by simp
  moreover have "\<forall>w \<in> set (ws1 @ ws2). good (snd w)" using w1(3) w2(3) by auto
  ultimately show ?case by blast
qed

lemma writeFiles_written:
  assumes "writeFiles ext t outputDir fs = Inr fs'"
  shows "\<exists>up utilsText ws.
           utilPath (opts t) = Some up
         \<and> fs_readFile fs (path_resolve ext (dirname ext) ''output/utils.js'') = Inr utilsText
         \<and> written fs' = written fs @ (up, utilsText) # ws
         \<and> map fst ws =
             map (\<lambda>obj. output_file ext outputDir (obj_name obj))
                 (filter (\<lambda>obj. \<not> imported obj) (map snd (interfaces (ctx t)))) @
             map (\<lambda>obj. output_file ext outputDir (obj_name obj))
                 (filter (\<lambda>obj. \<not> imported obj) (map snd (dictionaries (ctx t))))
         \<and> (\<forall>w \<in> set ws. imports_utils ext outputDir up (snd w))"
proof -
  from assms obtain utilsText up fs1 fs2 where
    r: "fs_readFile fs (path_resolve ext (dirname ext) ''output/utils.js'') = Inr utilsText"
    and u: "utilPath (opts t) = Some up"
    and w: "fs_writeFile fs up utilsText = Inr fs1"
    and i: "for_of (write_interface ext (ctx t) up outputDir) (map snd (interfaces (ctx t))) fs1 = Inr fs2"
    and d: "for_of (write_dictionary ext (ctx t) up outputDir) (map snd (dictionaries (ctx t))) fs2 = Inr fs'"
    by (auto simp: writeFiles_def split: sum.splits option.splits)
  from for_of_written[OF i, where skip = imported and out = "\<lambda>obj. output_file ext outputDir (obj_name obj)"
      and good = "imports_utils ext outputDir up"] write_interface_written
  obtain ws1 where w1: "written fs2 = written fs1 @ ws1"
    "map fst ws1 = map (\<lambda>obj. output_file ext outputDir (obj_name obj))
                 (filter (\<lambda>obj. \<not> imported obj) (map snd (interfaces (ctx t))))"
    "\<forall>w \<in> set ws1. imports_utils ext outputDir up (snd w)"
    by blast
  from for_of_written[OF d, where skip = imported and out = "\<lambda>obj. output_file ext outputDir (obj_name obj)"
      and good = "imports_utils ext outputDir up"] write_dictionary_written
  obtain ws2 where w2: "written fs' = written fs2 @ ws2"
    "map fst ws2 = map (\<lambda>obj. output_file ext outputDir (obj_name obj))
                 (filter (\<lambda>obj. \<not> imported obj) (map snd (dictionaries (ctx t))))"
    "\<forall>w \<in> set ws2. imports_utils ext outputDir up (snd w)"
    by blast
  have "written fs' = written fs @ (up, utilsText) # (ws1 @ ws2)"
    using fs_writeFile_written[OF w] w1(1) w2(1) by simp
  moreover have "map fst (ws1 @ ws2) =
             map (\<lambda>obj. output_file ext outputDir (obj_name obj))
                 (filter (\<lambda>obj. \<not> imported obj) (map snd (interfaces (ctx t)))) @
             map (\<lambda>obj. output_file ext outputDir (obj_name obj))
                 (filter (\<lambda>obj. \<not> imported obj) (map snd (dictionaries (ctx t))))"
    using w1(2) w2(2) by simp
  moreover have "\<forall>w \<in> set (ws1 @ ws2). imports_utils ext outputDir up (snd w)"
    using w1(3) w2(3) by auto
  ultimately show ?thesis using u r by blast
qed

lemma generate_cases:
  assumes "generate ext t outputDir fs = (r, t', fs')"
  shows "opts t' = opts (default_utilPath ext outputDir t)"
    and "sources t' = sources t" and "modules t' = modules t"
    and "r = Inr () \<Longrightarrow> writeFiles ext t' outputDir fs = Inr fs'"
  using assms
  by (auto simp: generate_def Let_def default_utilPath_def split: sum.splits prod.splits if_splits)

lemma default_utilPath_opts:
  "utilPath (opts (default_utilPath ext outputDir t)) =
     (if utilPath_unset (opts t) then Some (path_join ext outputDir ''utils.js'')
      else utilPath (opts t))"
  by (simp add: default_utilPath_def)

section \<open>Registering sources\<close>

text \<open>
  C4, as the spec states it, would let \<^verbatim>\<open>addSource\<close> succeed without an
  implementation directory. The source checks \<^verbatim>\<open>typeof impl !== "string"\<close> and throws:
  with the second argument missing the call fails.
\<close>

theorem addSource_missing_impl_counterexample:
  "addSource demo_transformer (JString ''idl/A.idl'') JUndefined
     = Inl (TypeError ''impl path has to be a string'')"
  by (simp add: addSource_def)

text \<open>
  C4 (amended): for every string \<open>i\<close>, \<^verbatim>\<open>addSource\<close> with \<open>i\<close> and a string
  implementation directory \<open>d\<close> succeeds and appends \<^verbatim>\<open>{ idlPath: i, impl: d }\<close> to
  the sources; with \<open>i\<close> and no implementation directory it throws the
  \<^verbatim>\<open>TypeError\<close> "impl path has to be a string".
\<close>

theorem addSource_impl_required:
  "addSource t (JString i) (JString d)
     = Inr (t\<lparr>sources := sources t @ [\<lparr>impl = Some d, genPath = None, idlPath = i\<rparr>]\<rparr>)
   \<and> addSource t (JString i) JUndefined = Inl (TypeError ''impl path has to be a string'')"
  by (simp add: addSource_def)

section \<open>Source collection\<close>

text \<open>
  C5, as the spec states it, has subdirectories yield no entries. The source filters
  the names \<^verbatim>\<open>readdir\<close> returns by their ending only and never looks at the kind of
  the entry: the directory \<^verbatim>\<open>mixed\<close> holds the subdirectory \<^verbatim>\<open>sub.idl\<close>, and
  collection returns an entry for it.
\<close>

theorem collectSources_subdirectory_counterexample:
  "nodes demo_fs ''mixed'' = Some (Directory [''A.idl'', ''sub.idl'', ''readme.md''])
   \<and> nodes demo_fs ''mixed/sub.idl'' = Some (Directory [''B.idl''])
   \<and> collectSources demo_ext demo_fs
         (demo_transformer\<lparr>sources := [\<lparr>impl = Some ''impl'', genPath = None, idlPath = ''mixed''\<rparr>]\<rparr>)
       = Inr [\<lparr>impl = Some ''impl'', genPath = None, idlPath = ''mixed/A.idl''\<rparr>,
              \<lparr>impl = Some ''impl'', genPath = None, idlPath = ''mixed/sub.idl''\<rparr>]"
  by code_simp

text \<open>
  C5 (amended): for a transformer whose only declaration is the source \<open>src\<close>: if its
  \<^verbatim>\<open>idlPath\<close> is a directory, collection returns exactly one entry for every name
  the directory lists that ends in \<^verbatim>\<open>.idl\<close>, in listing order, with the path joined
  to the directory's and the declaration's \<^verbatim>\<open>impl\<close> (the name of a regular file or
  of a subdirectory alike; names with another ending yield nothing and nothing is
  descended into); if its \<^verbatim>\<open>idlPath\<close> is a file, collection returns exactly one
  entry for that path, whatever its extension.
\<close>

theorem collectSources_source:
  assumes "sources t = [src]" and "modules t = []"
  shows "(nodes fs (idlPath src) = Some (Directory names) \<longrightarrow>
            collectSources ext fs t =
              Inr (map (\<lambda>file. \<lparr>impl = impl src, genPath = None,
                                  idlPath = path_join ext (idlPath src) file\<rparr>)
                       (filter (\<lambda>file. endsWith file ''.idl'') names)))
       \<and> (nodes fs (idlPath src) = Some (File content) \<longrightarrow>
            collectSources ext fs t =
              Inr [\<lparr>impl = impl src, genPath = None, idlPath = idlPath src\<rparr>])"
  using assms
  by (simp add: collectSources_def collect_source_def fs_stat_def fs_readdir_def)

theorem collectSources_source_witness:
  "collectSources demo_ext demo_fs
       (demo_transformer\<lparr>sources := [\<lparr>impl = Some ''impl'', genPath = None, idlPath = ''idl''\<rparr>]\<rparr>)
     = Inr [\<lparr>impl = Some ''impl'', genPath = None, idlPath = ''idl/A.idl''\<rparr>,
            \<lparr>impl = Some ''impl'', genPath = None, idlPath = ''idl/B.idl''\<rparr>]
   \<and> collectSources demo_ext demo_fs
       (demo_transformer\<lparr>sources := [\<lparr>impl = Some ''impl'', genPath = None, idlPath = ''single.webidl''\<rparr>]\<rparr>)
     = Inr [\<lparr>impl = Some ''impl'', genPath = None, idlPath = ''single.webidl''\<rparr>]"
proof -
  let ?d = "\<lparr>impl = Some ''impl'', genPath = None, idlPath = ''idl''\<rparr>"
  let ?f = "\<lparr>impl = Some ''impl'', genPath = None, idlPath = ''single.webidl''\<rparr>"
  have m: "modules demo_transformer = []"
    by (simp add: demo_transformer_def new_Transformer_def)
  have d: "nodes demo_fs (idlPath ?d) = Some (Directory [''A.idl'', ''notes.txt'', ''B.idl''])"
    by (simp add: demo_fs_def demo_nodes_def)
  have f: "nodes demo_fs (idlPath ?f) = Some (File ''C'')"
    by (simp add: demo_fs_def demo_nodes_def)
  have j: "path_join demo_ext = (\<lambda>a b. a @ ''/'' @ b)"
    by (simp add: demo_ext_def)
  show ?thesis
    using collectSources_source [where t = "demo_transformer\<lparr>sources := [?d]\<rparr>" and src = ?d
            and fs = demo_fs and names = "[''A.idl'', ''notes.txt'', ''B.idl'']" and ext = demo_ext
            and content = "''C''"]
          collectSources_source [where t = "demo_transformer\<lparr>sources := [?f]\<rparr>" and src = ?f
            and fs = demo_fs and names = "[]" and ext = demo_ext and content = "''C''"]
          m d f
    by (simp add: j endsWith_def)
qed

text \<open>
  C6: for a transformer whose only declaration is the module \<open>modName\<close> with the
  descriptor \<open>packageJSON\<close>, which is readable and parses: if the parsed value has no
  \<^verbatim>\<open>webidl2js\<close> property, collection returns no entry and no error; if the section
  is an object with the output subpath \<^verbatim>\<open>interface\<close> and the list \<^verbatim>\<open>idl\<close> of paths,
  collection returns one entry per listed path, in order, resolved against the
  descriptor's directory, with \<^verbatim>\<open>genPath\<close> the module name joined with the subpath
  and no \<^verbatim>\<open>impl\<close>.
\<close>

theorem collectSources_module:
  assumes "sources t = []" and "modules t = [(modName, packageJSON)]"
    and "fs_readFile fs packageJSON = Inr content" and "JSON_parse ext content = Inr pkg"
  shows "(get_property pkg ''webidl2js'' = Inr JUndefined \<longrightarrow> collectSources ext fs t = Inr [])
       \<and> (get_property pkg ''webidl2js'' = Inr (JObject sec) \<and>
          map_of sec ''interface'' = Some (JString sub) \<and>
          map_of sec ''idl'' = Some (JArray (map JString files)) \<longrightarrow>
            collectSources ext fs t =
              Inr (map (\<lambda>file. \<lparr>impl = None, genPath = Some (path_posix_join ext modName sub),
                                  idlPath = path_resolve ext (path_dirname ext packageJSON) file\<rparr>)
                       files))"
proof (intro conjI impI)
  assume "get_property pkg ''webidl2js'' = Inr JUndefined"
  then show "collectSources ext fs t = Inr []"
    using assms by (simp add: collectSources_def collect_module_def)
next
  assume a: "get_property pkg ''webidl2js'' = Inr (JObject sec) \<and>
          map_of sec ''interface'' = Some (JString sub) \<and>
          map_of sec ''idl'' = Some (JArray (map JString files))"
  have "all_results (map (module_entry ext (path_dirname ext packageJSON)
                      (path_posix_join ext modName sub)) (map JString files))
        = Inr (map (\<lambda>file. \<lparr>impl = None, genPath = Some (path_posix_join ext modName sub),
                               idlPath = path_resolve ext (path_dirname ext packageJSON) file\<rparr>)
                       files)"
    unfolding map_map by (rule all_results_map_Inr) (simp add: module_entry_def)
  then show "collectSources ext fs t =
              Inr (map (\<lambda>file. \<lparr>impl = None, genPath = Some (path_posix_join ext modName sub),
                                  idlPath = path_resolve ext (path_dirname ext packageJSON) file\<rparr>)
                       files)"
    using assms a by (simp add: collectSources_def collect_module_def)
qed

theorem collectSources_module_witness:
  "collectSources demo_ext demo_fs
       (demo_transformer\<lparr>modules := [(''plain'', ''node_modules/plain/package.json'')]\<rparr>)
     = Inr []
   \<and> collectSources demo_ext demo_fs
       (demo_transformer\<lparr>modules := [(''dom'', ''node_modules/dom/package.json'')]\<rparr>)
     = Inr [\<lparr>impl = None, genPath = Some ''dom/lib/generated'',
              idlPath = ''node_modules/dom/idl/Node.idl''\<rparr>,
            \<lparr>impl = None, genPath = Some ''dom/lib/generated'',
              idlPath = ''node_modules/dom/idl/Event.idl''\<rparr>]"
proof -
  let ?p = "JObject [(''name'', JString ''plain'')]"
  let ?sec = "[(''interface'', JString ''lib/generated''),
               (''idl'', JArray [JString ''idl/Node.idl'', JString ''idl/Event.idl''])]"
  let ?c = "JObject [(''name'', JString ''dom''), (''webidl2js'', JObject ?sec)]"
  have s: "sources demo_transformer = []"
    by (simp add: demo_transformer_def new_Transformer_def)
  have r1: "fs_readFile demo_fs ''node_modules/plain/package.json'' = Inr ''plain''"
    by (simp add: fs_readFile_def demo_fs_def demo_nodes_def)
  have r2: "fs_readFile demo_fs ''node_modules/dom/package.json'' = Inr ''contributing''"
    by (simp add: fs_readFile_def demo_fs_def demo_nodes_def)
  have p1: "JSON_parse demo_ext ''plain'' = Inr ?p"
    by (simp add: demo_ext_def demo_descriptors_def)
  have p2: "JSON_parse demo_ext ''contributing'' = Inr ?c"
    by (simp add: demo_ext_def demo_descriptors_def)
  have e: "path_posix_join demo_ext ''dom'' ''lib/generated'' = ''dom/lib/generated''"
    "path_dirname demo_ext ''node_modules/dom/package.json'' = ''node_modules/dom''"
    "path_resolve demo_ext = (\<lambda>a b. a @ ''/'' @ b)"
    by (simp_all add: demo_ext_def)
  have a: "collectSources demo_ext demo_fs
       (demo_transformer\<lparr>modules := [(''plain'', ''node_modules/plain/package.json'')]\<rparr>) = Inr []"
    using collectSources_module [where t = "demo_transformer\<lparr>modules := [(''plain'', ''node_modules/plain/package.json'')]\<rparr>"
        and modName = "''plain''" and packageJSON = "''node_modules/plain/package.json''"
        and fs = demo_fs and ext = demo_ext and pkg = ?p and content = "''plain''"] s r1 p1
    by simp
  have b: "collectSources demo_ext demo_fs
       (demo_transformer\<lparr>modules := [(''dom'', ''node_modules/dom/package.json'')]\<rparr>)
     = Inr [\<lparr>impl = None, genPath = Some ''dom/lib/generated'',
              idlPath = ''node_modules/dom/idl/Node.idl''\<rparr>,
            \<lparr>impl = None, genPath = Some ''dom/lib/generated'',
              idlPath = ''node_modules/dom/idl/Event.idl''\<rparr>]"
    using collectSources_module [where t = "demo_transformer\<lparr>modules := [(''dom'', ''node_modules/dom/package.json'')]\<rparr>"
        and modName = "''dom''" and packageJSON = "''node_modules/dom/package.json''"
        and fs = demo_fs and ext = demo_ext and pkg = ?c and content = "''contributing''"
        and sec = ?sec and sub = "''lib/generated''" and files = "[''idl/Node.idl'', ''idl/Event.idl'']"]
      s r2 p2
    by (simp add: e)
  from a b show ?thesis by simp
qed

section \<open>Document loading\<close>

text \<open>
  C7: when every entry's file can be read, \<^verbatim>\<open>_readFiles\<close> returns as many documents
  as it was given entries, and the \<open>i\<close>-th document holds the text read at the
  \<open>i\<close>-th entry's \<^verbatim>\<open>idlPath\<close> with the \<open>i\<close>-th entry's \<^verbatim>\<open>impl\<close> and \<^verbatim>\<open>genPath\<close>;
  when the read of any one entry fails, \<^verbatim>\<open>_readFiles\<close> fails and returns no
  document.
\<close>

theorem readFiles_zip:
  "((\<forall>f \<in> set files. \<exists>text. fs_readFile fs (idlPath f) = Inr text) \<longrightarrow>
      (\<exists>docs. readFiles fs files = Inr docs \<and> length docs = length files \<and>
         (\<forall>i < length files.
            fs_readFile fs (idlPath (files ! i)) = Inr (idlContent (docs ! i)) \<and>
            impl (docs ! i) = impl (files ! i) \<and> genPath (docs ! i) = genPath (files ! i))))
   \<and> ((\<exists>f \<in> set files. \<exists>e. fs_readFile fs (idlPath f) = Inl e) \<longrightarrow>
      (\<exists>e. readFiles fs files = Inl e))"
proof (intro conjI impI)
  assume ok: "\<forall>f \<in> set files. \<exists>text. fs_readFile fs (idlPath f) = Inr text"
  define g where "g f = projr (fs_readFile fs (idlPath f))" for f :: file_entry
  have "\<And>f. f \<in> set files \<Longrightarrow> fs_readFile fs (idlPath f) = Inr (g f)"
    using ok by (auto simp: g_def)
  then have all: "all_results (map (\<lambda>f. fs_readFile fs (idlPath f)) files) = Inr (map g files)"
    by (rule all_results_map_Inr)
  show "\<exists>docs. readFiles fs files = Inr docs \<and> length docs = length files \<and>
         (\<forall>i < length files.
            fs_readFile fs (idlPath (files ! i)) = Inr (idlContent (docs ! i)) \<and>
            impl (docs ! i) = impl (files ! i) \<and> genPath (docs ! i) = genPath (files ! i))"
    using ok by (simp add: readFiles_def all g_def) (metis nth_mem sum.sel(2))
next
  assume "\<exists>f \<in> set files. \<exists>e. fs_readFile fs (idlPath f) = Inl e"
  then obtain f e where "f \<in> set files" "fs_readFile fs (idlPath f) = Inl e" by blast
  then have "\<exists>e'. all_results (map (\<lambda>f. fs_readFile fs (idlPath f)) files) = Inl e'"
    by (intro all_results_Inl[where r = "fs_readFile fs (idlPath f)" and e = e]) force+
  then show "\<exists>e. readFiles fs files = Inl e"
    by (auto simp: readFiles_def)
qed

theorem readFiles_zip_witness:
  "(\<exists>docs. readFiles demo_fs
              [\<lparr>impl = Some ''impl'', genPath = None, idlPath = ''idl/A.idl''\<rparr>,
               \<lparr>impl = None, genPath = Some ''gen'', idlPath = ''idl/B.idl''\<rparr>] = Inr docs
          \<and> length docs = 2
          \<and> docs ! 0 = \<lparr>impl = Some ''impl'', genPath = None, idlContent = ''A''\<rparr>
          \<and> docs ! 1 = \<lparr>impl = None, genPath = Some ''gen'', idlContent = ''B''\<rparr>)
   \<and> (\<exists>e. readFiles demo_fs
              [\<lparr>impl = Some ''impl'', genPath = None, idlPath = ''idl/A.idl''\<rparr>,
               \<lparr>impl = Some ''impl'', genPath = None, idlPath = ''idl/missing.idl''\<rparr>] = Inl e)"
proof -
  let ?a = "\<lparr>impl = Some ''impl'', genPath = None, idlPath = ''idl/A.idl''\<rparr>"
  let ?b = "\<lparr>impl = None, genPath = Some ''gen'', idlPath = ''idl/B.idl''\<rparr>"
  let ?m = "\<lparr>impl = Some ''impl'', genPath = None, idlPath = ''idl/missing.idl''\<rparr>"
  have ra: "fs_readFile demo_fs ''idl/A.idl'' = Inr ''A''"
    by (simp add: fs_readFile_def demo_fs_def demo_nodes_def)
  have rb: "fs_readFile demo_fs ''idl/B.idl'' = Inr ''B''"
    by (simp add: fs_readFile_def demo_fs_def demo_nodes_def)
  have rm: "fs_readFile demo_fs ''idl/missing.idl'' = Inl (SystemError ''ENOENT'')"
    by (simp add: fs_readFile_def demo_fs_def demo_nodes_def)
  from readFiles_zip [where fs = demo_fs and files = "[?a, ?b]"] ra rb
  obtain docs where d: "readFiles demo_fs [?a, ?b] = Inr docs" "length docs = 2"
    "\<forall>i<2. fs_readFile demo_fs (idlPath ([?a, ?b] ! i)) = Inr (idlContent (docs ! i)) \<and>
       impl (docs ! i) = impl ([?a, ?b] ! i) \<and> genPath (docs ! i) = genPath ([?a, ?b] ! i)"
    by auto
  from d(3) have "idlContent (docs ! 0) = ''A'' \<and> impl (docs ! 0) = Some ''impl'' \<and> genPath (docs ! 0) = None"
    using ra by (auto dest: spec[where x = 0])
  moreover from d(3) have "idlContent (docs ! 1) = ''B'' \<and> impl (docs ! 1) = None \<and> genPath (docs ! 1) = Some ''gen''"
    using rb by (auto dest: spec[where x = 1])
  ultimately have "docs ! 0 = \<lparr>impl = Some ''impl'', genPath = None, idlContent = ''A''\<rparr>"
    "docs ! 1 = \<lparr>impl = None, genPath = Some ''gen'', idlContent = ''B''\<rparr>"
    by (cases "docs ! 0"; cases "docs ! 1"; simp)+
  with d have first: "\<exists>docs. readFiles demo_fs [?a, ?b] = Inr docs \<and> length docs = 2
          \<and> docs ! 0 = \<lparr>impl = Some ''impl'', genPath = None, idlContent = ''A''\<rparr>
          \<and> docs ! 1 = \<lparr>impl = None, genPath = Some ''gen'', idlContent = ''B''\<rparr>"
    by blast
  from readFiles_zip [where fs = demo_fs and files = "[?a, ?m]"] rm
  have "\<exists>e. readFiles demo_fs [?a, ?m] = Inl e"
    by auto
  with first show ?thesis by blast
qed

section \<open>The model builder\<close>

lemma demo_parse_contents:
  "parse_contents demo_ext [demo_document ''A'', demo_document ''B'']
   = Inr [demo_file ''A'', demo_file ''B'']"
  by code_simp

lemma demo_parse:
  "parse demo_ext demo_options ''out'' (initialize (ctx demo_transformer))
     [demo_document ''A'', demo_document ''B''] = Inr demo_registry"
  by code_simp

text \<open>
  C1, as the spec states it, has a name in at most one of the kind maps. The first pass
  registers a full interface and a full dictionary of one name in their two maps and
  overwrites the entry of the index: after the document \<^verbatim>\<open>C\<close>, which declares the
  interface \<^verbatim>\<open>Foo\<close> and the dictionary \<^verbatim>\<open>Foo\<close>, both maps hold \<^verbatim>\<open>Foo\<close> and the index
  records the dictionary only.
\<close>

theorem parse_name_in_two_maps_counterexample:
  "parse demo_ext demo_options ''out'' (initialize (ctx demo_transformer)) [demo_document ''C'']
   = Inr \<lparr>interfaces = [(''Foo'', demo_interface ''Foo'' [''x''] [] [])],
          dictionaries =
            [(''Foo'', \<lparr>obj_name = ''Foo'',
                         obj_idl = dictionary_instruction ''Foo'' False [''d''] [],
                         imported = False, path_hint = None\<rparr>)],
          typedefs = [],
          customTypes = [(''Foo'', ''dictionary'')],
          implSuffix = []\<rparr>"
  by code_simp

text \<open>
  C1 (amended): when \<^verbatim>\<open>_parse\<close> completes on a freshly initialized registry, the
  interfaces map holds exactly the names of the non-partial interface declarations, the
  dictionaries map exactly the names of the non-partial dictionary declarations, and
  the index \<^verbatim>\<open>customTypes\<close> exactly the names of the non-partial interface and
  dictionary declarations of all documents, each once; the names of the index are the
  names of the two kind maps together, and every entry of the index records a kind
  whose map holds the name. A name may stand in more than one kind map.
\<close>

theorem parse_index:
  assumes "parse_contents ext contents = Inr parsed"
    and "parse ext os outputDir (initialize c0) contents = Inr c"
  shows "keys (interfaces c) = name ` set (filter full_interface (instructions parsed))
       \<and> keys (dictionaries c) = name ` set (filter full_dictionary (instructions parsed))
       \<and> keys (customTypes c) =
           name ` set (filter (\<lambda>i. full_interface i \<or> full_dictionary i) (instructions parsed))
       \<and> keys (customTypes c) = keys (interfaces c) \<union> keys (dictionaries c)
       \<and> index_consistent c
       \<and> distinct (map fst (customTypes c))"
proof -
  from assms obtain c1 where
    p1: "for_of (\<lambda>c (fl, i). pass1_instruction ext os outputDir fl c i) (pairs parsed) (initialize c0) = Inr c1"
    and p2: "for_of (pass2_instruction os) (instructions parsed) c1 = Inr c"
    by (rule parse_Inr)
  note k1 = pass1_loop_keys[OF p1, unfolded snd_pairs initialize_simps keys_Nil]
  note k2 = pass2_loop_keys[OF p2]
  have i0: "index_consistent (initialize c0)"
    by (simp add: index_consistent_def initialize_simps)
  have ic1: "index_consistent c1"
    using p1 i0 by (rule pass1_loop_consistent)
  have ic: "index_consistent c"
    using ic1 k2 by (simp add: index_consistent_def)
  have "distinct (map fst (customTypes c1))"
    using pass1_loop_distinct[OF p1] by (simp add: initialize_simps)
  then have d: "distinct (map fst (customTypes c))"
    using k2 by simp
  have a: "keys (interfaces c) = name ` set (filter full_interface (instructions parsed))"
    using k1 k2 by simp
  have b: "keys (dictionaries c) = name ` set (filter full_dictionary (instructions parsed))"
    using k1 k2 by simp
  have e: "keys (customTypes c) =
           name ` set (filter (\<lambda>i. full_interface i \<or> full_dictionary i) (instructions parsed))"
    using k1 k2 by simp
  have u: "keys (customTypes c) = keys (interfaces c) \<union> keys (dictionaries c)"
    unfolding a b e by auto
  from a b e u ic d show ?thesis by blast
qed

theorem parse_index_witness:
  "parse demo_ext demo_options ''out'' (initialize (ctx demo_transformer))
     [demo_document ''A'', demo_document ''B''] = Inr demo_registry
   \<and> keys (customTypes demo_registry) = {''Foo'', ''Bar''}
   \<and> keys (customTypes demo_registry) = keys (interfaces demo_registry) \<union> keys (dictionaries demo_registry)
   \<and> index_consistent demo_registry"
proof -
  have names: "name ` set (filter (\<lambda>i. full_interface i \<or> full_dictionary i)
                 (instructions [demo_file ''A'', demo_file ''B''])) = {''Foo'', ''Bar''}"
    by (simp add: instructions_def demo_file_def demo_documents_def interface_instruction_def
        implements_instruction_def full_interface_def full_dictionary_def)
  note r = parse_index[OF demo_parse_contents demo_parse]
  have k: "keys (customTypes demo_registry) = {''Foo'', ''Bar''}"
    by (simp only: r[THEN conjunct2, THEN conjunct2, THEN conjunct1] names)
  note u = r[THEN conjunct2, THEN conjunct2, THEN conjunct2, THEN conjunct1]
  note ic = r[THEN conjunct2, THEN conjunct2, THEN conjunct2, THEN conjunct2, THEN conjunct1]
  show ?thesis
    using demo_parse k u ic by (intro conjI)
qed

text \<open>
  C3: let an instruction \<open>i\<close> of some document be a model error among the instructions
  of all documents: its kind is unrecognized, or it is a partial interface or dictionary
  and no document holds a full definition of its name, or it is an \<^verbatim>\<open>implements\<close> and
  no document holds a full interface of its target. With \<^verbatim>\<open>suppressErrors\<close> disabled,
  \<^verbatim>\<open>_parse\<close> on a freshly initialized registry throws. With \<^verbatim>\<open>suppressErrors\<close> enabled
  it completes, and the registry it leaves is the registry it leaves on the same
  documents with \<open>i\<close> omitted.
\<close>

theorem model_errors_fatal_or_skipped:
  assumes "parse_contents ext contents = Inr (pre @ [fl\<lparr>idl := xs @ [i] @ ys\<rparr>] @ post)"
    and "parse_contents ext contents' = Inr (pre @ [fl\<lparr>idl := xs @ ys\<rparr>] @ post)"
    and "model_error (instructions (pre @ [fl\<lparr>idl := xs @ [i] @ ys\<rparr>] @ post)) i"
  shows "(\<not> suppressErrors os \<longrightarrow>
            (\<exists>failure. parse ext os outputDir (initialize c0) contents = Inl failure))
       \<and> (suppressErrors os \<longrightarrow>
            (\<exists>c. parse ext os outputDir (initialize c0) contents = Inr c
                \<and> parse ext os outputDir (initialize c0) contents' = Inr c))"
proof (intro conjI impI)
  let ?parsed = "pre @ [fl\<lparr>idl := xs @ [i] @ ys\<rparr>] @ post"
  let ?every = "instructions ?parsed"
  have mem: "i \<in> set ?every" by (simp add: instructions_def)
  assume strict: "\<not> suppressErrors os"
  show "\<exists>failure. parse ext os outputDir (initialize c0) contents = Inl failure"
  proof (cases "pass1 ext os outputDir ?parsed (initialize c0)")
    case (Inl failure)
    then show ?thesis using assms(1) by (simp add: parse_def)
  next
    case (Inr c1)
    have rec: "recognized i"
      using pass1_throws[OF mem _ strict, of ext outputDir "initialize c0"] Inr by auto
    with assms(3) have "unmatched_partial ?every i \<or> unknown_target ?every i"
      by (auto simp: model_error_def)
    from pass2_throws[OF mem this strict pass1_keys_initialized[OF Inr]]
    show ?thesis using assms(1) Inr by (simp add: parse_def)
  qed
next
  let ?parsed = "pre @ [fl\<lparr>idl := xs @ [i] @ ys\<rparr>] @ post"
  let ?parsed' = "pre @ [fl\<lparr>idl := xs @ ys\<rparr>] @ post"
  let ?every = "instructions ?parsed"
  assume relaxed: "suppressErrors os"
  from pass1_relaxed[OF relaxed] obtain c1 where
    c1: "pass1 ext os outputDir ?parsed (initialize c0) = Inr c1" by blast
  from pass2_relaxed[OF relaxed] obtain c where c: "pass2 os ?parsed c1 = Inr c" by blast
  have c1': "pass1 ext os outputDir ?parsed' (initialize c0) = Inr c1"
    using pass1_omit[OF assms(3) relaxed] c1 by simp
  have c': "pass2 os ?parsed' c1 = Inr c"
    using pass2_omit[OF assms(3) relaxed pass1_keys_initialized[OF c1]] c by simp
  have "parse ext os outputDir (initialize c0) contents = Inr c"
    using assms(1) c1 c by (simp add: parse_def)
  moreover have "parse ext os outputDir (initialize c0) contents' = Inr c"
    using assms(2) c1' c' by (simp add: parse_def)
  ultimately show "\<exists>c. parse ext os outputDir (initialize c0) contents = Inr c
                \<and> parse ext os outputDir (initialize c0) contents' = Inr c"
    by blast
qed

theorem model_errors_fatal_or_skipped_witness:
  "(\<exists>failure. parse demo_ext demo_options ''out'' (initialize (ctx demo_transformer))
                 [demo_document ''A'', demo_document ''P''] = Inl failure)
   \<and> (\<exists>c. parse demo_ext relaxed_options ''out'' (initialize (ctx demo_transformer))
                 [demo_document ''A'', demo_document ''P''] = Inr c
          \<and> parse demo_ext relaxed_options ''out'' (initialize (ctx demo_transformer))
                 [demo_document ''A'', demo_document []] = Inr c)"
proof -
  let ?i = "interface_instruction ''Baz'' True [''z''] []"
  have f: "[demo_file ''A''] @ [(demo_file ''P'')\<lparr>idl := [] @ [?i] @ []\<rparr>] @ []
           = [demo_file ''A'', demo_file ''P'']"
    "[demo_file ''A''] @ [(demo_file ''P'')\<lparr>idl := [] @ []\<rparr>] @ []
           = [demo_file ''A'', demo_file []]"
    by (simp_all add: demo_file_def demo_documents_def)
  have h1: "parse_contents demo_ext [demo_document ''A'', demo_document ''P'']
            = Inr ([demo_file ''A''] @ [(demo_file ''P'')\<lparr>idl := [] @ [?i] @ []\<rparr>] @ [])"
    unfolding f by code_simp
  have h2: "parse_contents demo_ext [demo_document ''A'', demo_document []]
            = Inr ([demo_file ''A''] @ [(demo_file ''P'')\<lparr>idl := [] @ []\<rparr>] @ [])"
    unfolding f by code_simp
  have h3: "model_error
              (instructions ([demo_file ''A''] @ [(demo_file ''P'')\<lparr>idl := [] @ [?i] @ []\<rparr>] @ [])) ?i"
    unfolding f
    by (simp add: model_error_def unmatched_partial_def instructions_def demo_file_def
        demo_documents_def interface_instruction_def partial_interface_def full_interface_def)
  have s: "\<not> suppressErrors demo_options" "suppressErrors relaxed_options"
    by (simp_all add: demo_options_def relaxed_options_def)
  from model_errors_fatal_or_skipped[OF h1 h2 h3, of demo_options "''out''" "ctx demo_transformer"]
       model_errors_fatal_or_skipped[OF h1 h2 h3, of relaxed_options "''out''" "ctx demo_transformer"] s
  show ?thesis by blast
qed

text \<open>
  C2: let one document hold, as its only interface instruction of the name \<open>n\<close>, the
  full interface \<open>f\<close>, and another, as its only interface instruction of that name,
  the partial interface \<open>p\<close>. If \<^verbatim>\<open>_parse\<close> completes on the two documents in one
  order, it completes in the other order too, and in both orders the entry \<open>n\<close> of the
  interfaces map has the members of \<open>f\<close> followed by the members of \<open>p\<close>, and the
  extended attributes of \<open>f\<close> followed by those of \<open>p\<close>.
\<close>

theorem partial_merge_order_independent:
  assumes "parse_contents ext [d1, d2] = Inr [D1, D2]"
    and "filter (\<lambda>i. type i = ''interface'' \<and> name i = n) (idl D1) = [f]" and "\<not> partial f"
    and "filter (\<lambda>i. type i = ''interface'' \<and> name i = n) (idl D2) = [p]" and "partial p"
    and "parse ext os outputDir (initialize c0) [d1, d2] = Inr c"
  shows "\<exists>c' obj obj'.
           parse ext os outputDir (initialize c0) [d2, d1] = Inr c'
         \<and> map_of (interfaces c) n = Some obj \<and> map_of (interfaces c') n = Some obj'
         \<and> members (obj_idl obj) = members f @ members p
         \<and> members (obj_idl obj') = members f @ members p
         \<and> extAttrs (obj_idl obj) = extAttrs f @ extAttrs p
         \<and> extAttrs (obj_idl obj') = extAttrs f @ extAttrs p"
proof -
  note swap = parse_contents_swap[OF assms(1)]
  have full12: "filter (\<lambda>i. full_interface i \<and> name i = n) (instructions [D1, D2]) = [f]"
    and part12: "filter (\<lambda>i. partial_interface i \<and> name i = n) (instructions [D1, D2]) = [p]"
    and full21: "filter (\<lambda>i. full_interface i \<and> name i = n) (instructions [D2, D1]) = [f]"
    and part21: "filter (\<lambda>i. partial_interface i \<and> name i = n) (instructions [D2, D1]) = [p]"
    using assms(2,3,4,5)
    by (simp_all add: instructions_def filter_full_interface filter_partial_interface)
  have sets: "set (instructions [D2, D1]) = set (instructions [D1, D2])"
    by (auto simp: instructions_def)
  have "suppressErrors os \<or>
        (\<forall>i \<in> set (instructions [D1, D2]). \<not> model_error (instructions [D1, D2]) i)"
    using parse_succeeds_iff[OF assms(1), of os outputDir c0] assms(6) by blast
  then have "suppressErrors os \<or>
        (\<forall>i \<in> set (instructions [D2, D1]). \<not> model_error (instructions [D2, D1]) i)"
    unfolding sets model_error_set_cong[OF sets] .
  then obtain c' where c': "parse ext os outputDir (initialize c0) [d2, d1] = Inr c'"
    using parse_succeeds_iff[OF swap, of os outputDir c0] by blast
  from parse_interface[OF assms(1) assms(6), of n] obtain obj where
    "map_of (interfaces c) n = Some obj"
    "members (obj_idl obj) = members f @ members p"
    "extAttrs (obj_idl obj) = extAttrs f @ extAttrs p"
    unfolding full12 part12 by auto
  moreover from parse_interface[OF swap c', of n] obtain obj' where
    "map_of (interfaces c') n = Some obj'"
    "members (obj_idl obj') = members f @ members p"
    "extAttrs (obj_idl obj') = extAttrs f @ extAttrs p"
    unfolding full21 part21 by auto
  ultimately show ?thesis using c' by blast
qed

theorem partial_merge_order_independent_witness:
  "\<exists>c c' obj obj'.
       parse demo_ext demo_options ''out'' (initialize (ctx demo_transformer))
         [demo_document ''A'', demo_document ''B''] = Inr c
     \<and> parse demo_ext demo_options ''out'' (initialize (ctx demo_transformer))
         [demo_document ''B'', demo_document ''A''] = Inr c'
     \<and> map_of (interfaces c) ''Foo'' = Some obj \<and> map_of (interfaces c') ''Foo'' = Some obj'
     \<and> members (obj_idl obj) = [''x'', ''y''] \<and> members (obj_idl obj') = [''x'', ''y'']
     \<and> extAttrs (obj_idl obj) = [''Exposed'', ''Global'']
     \<and> extAttrs (obj_idl obj') = [''Exposed'', ''Global'']"
proof -
  let ?f = "interface_instruction ''Foo'' False [''x''] [''Exposed'']"
  let ?p = "interface_instruction ''Foo'' True [''y''] [''Global'']"
  have h2: "filter (\<lambda>i. type i = ''interface'' \<and> name i = ''Foo'') (idl (demo_file ''A'')) = [?f]"
    by (simp add: demo_file_def demo_documents_def interface_instruction_def)
  have h3: "\<not> partial ?f" by (simp add: interface_instruction_def)
  have h4: "filter (\<lambda>i. type i = ''interface'' \<and> name i = ''Foo'') (idl (demo_file ''B'')) = [?p]"
    by (simp add: demo_file_def demo_documents_def interface_instruction_def
        implements_instruction_def)
  have h5: "partial ?p" by (simp add: interface_instruction_def)
  have m: "members ?f @ members ?p = [''x'', ''y'']"
    "extAttrs ?f @ extAttrs ?p = [''Exposed'', ''Global'']"
    by (simp_all add: interface_instruction_def)
  from partial_merge_order_independent[OF demo_parse_contents h2 h3 h4 h5 demo_parse]
  show ?thesis
    unfolding m using demo_parse by blast
qed

text \<open>
  C10: the second pass, at an \<^verbatim>\<open>implements\<close> instruction whose target is a registered
  interface, appends the name of the mixin source to the mixins recorded on the target
  and throws nothing, with \<^verbatim>\<open>suppressErrors\<close> disabled and enabled alike; whether an
  interface of the source name is registered is never looked at.
\<close>

theorem implements_checks_target_only:
  assumes "type i = ''implements''" and "map_of (interfaces c) (target i) = Some obj"
  shows "pass2_instruction (os\<lparr>suppressErrors := False\<rparr>) c i
           = Inr (c\<lparr>interfaces := AList.update (target i)
                       (obj\<lparr>mixins := mixins obj @ [implements i]\<rparr>) (interfaces c)\<rparr>)
       \<and> pass2_instruction (os\<lparr>suppressErrors := True\<rparr>) c i
           = Inr (c\<lparr>interfaces := AList.update (target i)
                       (obj\<lparr>mixins := mixins obj @ [implements i]\<rparr>) (interfaces c)\<rparr>)"
  using assms
  by (simp add: pass2_instruction_def Interface_implements_def)

theorem implements_checks_target_only_witness:
  "map_of (interfaces bar_registry) ''Missing'' = None
   \<and> pass2_instruction demo_options bar_registry (implements_instruction ''Bar'' ''Missing'')
       = Inr (bar_registry\<lparr>interfaces := [(''Bar'', demo_interface ''Bar'' [] [] [''Missing''])]\<rparr>)
   \<and> pass2_instruction relaxed_options bar_registry (implements_instruction ''Bar'' ''Missing'')
       = Inr (bar_registry\<lparr>interfaces := [(''Bar'', demo_interface ''Bar'' [] [] [''Missing''])]\<rparr>)
   \<and> parse demo_ext demo_options ''out'' (initialize (ctx demo_transformer)) [demo_document ''M'']
       = Inr (bar_registry\<lparr>interfaces := [(''Bar'', demo_interface ''Bar'' [] [] [''Missing''])]\<rparr>)"
proof -
  let ?i = "implements_instruction ''Bar'' ''Missing''"
  have t: "type ?i = ''implements''" by (simp add: implements_instruction_def)
  have g: "map_of (interfaces bar_registry) (target ?i) = Some (demo_interface ''Bar'' [] [] [])"
    by (simp add: bar_registry_def implements_instruction_def)
  have o: "demo_options\<lparr>suppressErrors := False\<rparr> = demo_options"
    "demo_options\<lparr>suppressErrors := True\<rparr> = relaxed_options"
    by (simp_all add: demo_options_def relaxed_options_def)
  have u: "AList.update (target ?i)
             ((demo_interface ''Bar'' [] [] [])\<lparr>mixins := mixins (demo_interface ''Bar'' [] [] []) @ [implements ?i]\<rparr>)
             (interfaces bar_registry)
           = [(''Bar'', demo_interface ''Bar'' [] [] [''Missing''])]"
    by (simp add: bar_registry_def implements_instruction_def demo_interface_def)
  have n: "map_of (interfaces bar_registry) ''Missing'' = None"
    by (simp add: bar_registry_def)
  have p: "parse demo_ext demo_options ''out'' (initialize (ctx demo_transformer)) [demo_document ''M'']
       = Inr (bar_registry\<lparr>interfaces := [(''Bar'', demo_interface ''Bar'' [] [] [''Missing''])]\<rparr>)"
    by code_simp
  from implements_checks_target_only[OF t g, of demo_options] n p
  show ?thesis
    unfolding o u by simp
qed

section \<open>Emission and the build\<close>

lemma demo_build_succeeds: "fst demo_build = Inr ()"
  by code_simp

lemma demo_rebuild_succeeds: "fst demo_rebuild = Inr ()"
  by code_simp

lemma demo_build_generate:
  "generate demo_ext demo_source ''out'' demo_fs = (Inr (), fst (snd demo_build), snd (snd demo_build))"
  by (simp add: demo_build_def[symmetric] demo_build_succeeds[symmetric])

lemma demo_rebuild_generate:
  "generate demo_ext (fst (snd demo_build)) ''other'' (snd (snd demo_build))
   = (Inr (), fst (snd demo_rebuild), snd (snd demo_rebuild))"
  by (simp add: demo_rebuild_def[symmetric] demo_rebuild_succeeds[symmetric])

lemma demo_source_unset: "utilPath_unset (opts demo_source)"
  by (simp add: demo_source_def demo_transformer_def new_Transformer_def utilPath_unset_def)

lemma demo_join: "path_join demo_ext a b = a @ ''/'' @ b"
  by (simp add: demo_ext_def)

text \<open>
  C8: when \<^verbatim>\<open>generate(outputDir)\<close> completes, what it wrote is, in this order: the
  text of \<^verbatim>\<open>output/utils.js\<close> at the utility path, which is
  \<^verbatim>\<open>outputDir/utils.js\<close> when \<^verbatim>\<open>options.utilPath\<close> was not set and the configured path
  otherwise; then one file \<^verbatim>\<open>outputDir/Name.js\<close> for every entry of the interfaces map
  whose \<^verbatim>\<open>imported\<close> flag is false; then one such file for every entry of the
  dictionaries map whose \<^verbatim>\<open>imported\<close> flag is false. Imported entries are written
  nowhere, and nothing else is written.
\<close>

theorem generate_emits:
  assumes "generate ext t outputDir fs = (Inr (), t', fs')"
  shows "\<exists>up utilsText ws.
           (utilPath_unset (opts t) \<longrightarrow> up = path_join ext outputDir ''utils.js'')
         \<and> (\<not> utilPath_unset (opts t) \<longrightarrow> utilPath (opts t) = Some up)
         \<and> fs_readFile fs (path_resolve ext (dirname ext) ''output/utils.js'') = Inr utilsText
         \<and> written fs' = written fs @ (up, utilsText) # ws
         \<and> map fst ws =
             map (\<lambda>obj. output_file ext outputDir (obj_name obj))
                 (filter (\<lambda>obj. \<not> imported obj) (map snd (interfaces (ctx t')))) @
             map (\<lambda>obj. output_file ext outputDir (obj_name obj))
                 (filter (\<lambda>obj. \<not> imported obj) (map snd (dictionaries (ctx t'))))"
proof -
  note g = generate_cases[OF assms]
  from writeFiles_written[OF g(4)] obtain up utilsText ws where
    w: "utilPath (opts t') = Some up"
      "fs_readFile fs (path_resolve ext (dirname ext) ''output/utils.js'') = Inr utilsText"
      "written fs' = written fs @ (up, utilsText) # ws"
      "map fst ws =
             map (\<lambda>obj. output_file ext outputDir (obj_name obj))
                 (filter (\<lambda>obj. \<not> imported obj) (map snd (interfaces (ctx t')))) @
             map (\<lambda>obj. output_file ext outputDir (obj_name obj))
                 (filter (\<lambda>obj. \<not> imported obj) (map snd (dictionaries (ctx t'))))"
    by blast
  from w(1) have "(utilPath_unset (opts t) \<longrightarrow> up = path_join ext outputDir ''utils.js'')
         \<and> (\<not> utilPath_unset (opts t) \<longrightarrow> utilPath (opts t) = Some up)"
    unfolding g(1) default_utilPath_opts by (simp split: if_splits)
  with w(2,3,4) show ?thesis by blast
qed

theorem generate_emits_witness:
  "fst demo_build = Inr ()
   \<and> map fst (interfaces (ctx (fst (snd demo_build)))) = [''Foo'', ''Bar'', ''Node'']
   \<and> map fst (dictionaries (ctx (fst (snd demo_build)))) = [''EventInit'']
   \<and> map fst (written (snd (snd demo_build))) = [''out/utils.js'', ''out/Foo.js'', ''out/Bar.js'']"
proof -
  from generate_emits[OF demo_build_generate] demo_source_unset obtain utilsText ws where
    w: "written (snd (snd demo_build)) = written demo_fs @ (path_join demo_ext ''out'' ''utils.js'', utilsText) # ws"
       "map fst ws =
             map (\<lambda>obj. output_file demo_ext ''out'' (obj_name obj))
                 (filter (\<lambda>obj. \<not> imported obj) (map snd (interfaces (ctx (fst (snd demo_build)))))) @
             map (\<lambda>obj. output_file demo_ext ''out'' (obj_name obj))
                 (filter (\<lambda>obj. \<not> imported obj) (map snd (dictionaries (ctx (fst (snd demo_build))))))"
    by blast
  have e: "map (\<lambda>obj. output_file demo_ext ''out'' (obj_name obj))
                 (filter (\<lambda>obj. \<not> imported obj) (map snd (interfaces (ctx (fst (snd demo_build)))))) @
             map (\<lambda>obj. output_file demo_ext ''out'' (obj_name obj))
                 (filter (\<lambda>obj. \<not> imported obj) (map snd (dictionaries (ctx (fst (snd demo_build))))))
           = [''out/Foo.js'', ''out/Bar.js'']"
    by code_simp
  have k: "map fst (interfaces (ctx (fst (snd demo_build)))) = [''Foo'', ''Bar'', ''Node'']"
    "map fst (dictionaries (ctx (fst (snd demo_build)))) = [''EventInit'']"
    by code_simp+
  have "map fst (written (snd (snd demo_build))) = [''out/utils.js'', ''out/Foo.js'', ''out/Bar.js'']"
    unfolding w(1) using w(2) e by (simp add: demo_fs_def demo_join)
  with demo_build_succeeds k show ?thesis by simp
qed

text \<open>
  C9: let \<^verbatim>\<open>options.utilPath\<close> be unset when \<^verbatim>\<open>generate(out1)\<close> is called, and let
  \<^verbatim>\<open>generate(out2)\<close> be called on the transformer afterwards. The first call sets the
  utility path to \<^verbatim>\<open>out1/utils.js\<close>, whether it completes or fails, and the second
  call leaves it there; when the second call completes, its first write is the utility
  module at \<^verbatim>\<open>out1/utils.js\<close>, and every file it generates imports the utility module
  by the path from \<^verbatim>\<open>out2\<close> to \<^verbatim>\<open>out1/utils.js\<close>. No operation changes a utility path
  that is set: \<^verbatim>\<open>addSource\<close> and \<^verbatim>\<open>addModule\<close> leave the options as they are, and
  \<^verbatim>\<open>generate\<close> leaves a set, non-empty utility path as it is. (\<^verbatim>\<open>path.join\<close> never
  returns the empty string; the model has it as a parameter, so this is a hypothesis.)
\<close>

theorem utilPath_fixed_by_first_generate:
  assumes "utilPath_unset (opts t)" and "path_join ext out1 ''utils.js'' \<noteq> []"
    and "generate ext t out1 fs = (r1, t1, fs1)"
    and "generate ext t1 out2 fs1 = (r2, t2, fs2)"
  shows "utilPath (opts t1) = Some (path_join ext out1 ''utils.js'')
       \<and> utilPath (opts t2) = Some (path_join ext out1 ''utils.js'')
       \<and> (r2 = Inr () \<longrightarrow>
            (\<exists>utilsText ws.
               written fs2 = written fs1 @ (path_join ext out1 ''utils.js'', utilsText) # ws
             \<and> (\<forall>w \<in> set ws. imports_utils ext out2 (path_join ext out1 ''utils.js'') (snd w))))
       \<and> (\<forall>s a b s'. addSource s a b = Inr s' \<longrightarrow> opts s' = opts s)
       \<and> (\<forall>s a b s'. addModule ext s a b = Inr s' \<longrightarrow> opts s' = opts s)
       \<and> (\<forall>s p d f r s' f'. utilPath (opts s) = Some p \<and> p \<noteq> [] \<and> generate ext s d f = (r, s', f')
             \<longrightarrow> utilPath (opts s') = Some p)"
proof -
  have keep: "utilPath (opts s') = Some p"
    if "utilPath (opts s) = Some p" "p \<noteq> []" "generate ext s d f = (r, s', f')"
    for s p d f r s' f'
    using generate_cases(1)[OF that(3)] that(1,2)
    by (simp add: default_utilPath_opts utilPath_unset_def)
  have u1: "utilPath (opts t1) = Some (path_join ext out1 ''utils.js'')"
    using generate_cases(1)[OF assms(3)] assms(1) by (simp add: default_utilPath_opts)
  have u2: "utilPath (opts t2) = Some (path_join ext out1 ''utils.js'')"
    using keep[OF u1 assms(2) assms(4)] .
  have w: "\<exists>utilsText ws.
               written fs2 = written fs1 @ (path_join ext out1 ''utils.js'', utilsText) # ws
             \<and> (\<forall>w \<in> set ws. imports_utils ext out2 (path_join ext out1 ''utils.js'') (snd w))"
    if "r2 = Inr ()"
  proof -
    from generate_cases(4)[OF assms(4) that] have "writeFiles ext t2 out2 fs1 = Inr fs2" .
    from writeFiles_written[OF this] u2 show ?thesis by auto
  qed
  have a: "opts s' = opts s" if "addSource s a b = Inr s'" for s a b s'
    using that by (auto simp: addSource_def split: jsvalue.splits)
  have m: "opts s' = opts s" if "addModule ext s a b = Inr s'" for s a b s'
    using that by (auto simp: addModule_def split: jsvalue.splits sum.splits)
  from u1 u2 w a m keep show ?thesis by blast
qed

theorem utilPath_fixed_by_first_generate_witness:
  "utilPath (opts (fst (snd demo_build))) = Some ''out/utils.js''
   \<and> utilPath (opts (fst (snd demo_rebuild))) = Some ''out/utils.js''
   \<and> fst demo_rebuild = Inr ()
   \<and> map fst (written (snd (snd demo_rebuild)))
       = [''out/utils.js'', ''out/Foo.js'', ''out/Bar.js'', ''out/utils.js'', ''other/Foo.js'', ''other/Bar.js'']
   \<and> relativeUtils_of demo_ext ''other'' ''out/utils.js'' = ''../out/utils.js''
   \<and> (\<exists>utilsText ws.
         written (snd (snd demo_rebuild)) = written (snd (snd demo_build)) @ (''out/utils.js'', utilsText) # ws
       \<and> (\<forall>w \<in> set ws. imports_utils demo_ext ''other'' ''out/utils.js'' (snd w)))"
proof -
  have j: "path_join demo_ext ''out'' ''utils.js'' = ''out/utils.js''"
    by (simp add: demo_join)
  have ne: "path_join demo_ext ''out'' ''utils.js'' \<noteq> []"
    by (simp add: demo_join)
  have g1: "generate demo_ext demo_source ''out'' demo_fs = (fst demo_build, fst (snd demo_build), snd (snd demo_build))"
    by (simp add: demo_build_def[symmetric])
  note r = utilPath_fixed_by_first_generate[OF demo_source_unset ne g1 demo_rebuild_generate, unfolded j]
  have l: "map fst (written (snd (snd demo_rebuild)))
       = [''out/utils.js'', ''out/Foo.js'', ''out/Bar.js'', ''out/utils.js'', ''other/Foo.js'', ''other/Bar.js'']"
    by code_simp
  have ru: "relativeUtils_of demo_ext ''other'' ''out/utils.js'' = ''../out/utils.js''"
    by code_simp
  from r demo_rebuild_succeeds l ru show ?thesis by blast
qed

end
